theory Spec2Isabelle
  imports Main "HOL-Library.AList"
begin

section \<open>The board store (\<^verbatim>\<open>projectDataService.js\<close>)\<close>

text \<open>
  A task is a plain JavaScript object. The default data and the creation form of
  \<^verbatim>\<open>Column.jsx\<close> give it the fields below; \<^verbatim>\<open>assignee_id\<close> is \<^verbatim>\<open>null\<close> for an
  unassigned task. The field \<^verbatim>\<open>id\<close> is named \<open>task_id\<close> here, since \<open>id\<close> is the
  identity function of HOL.
\<close>

record task =
  task_id :: string
  title :: string
  tag :: string
  description :: string
  due_date :: string
  assignee_id :: "int option"

text \<open>
  A board is the object held for one project: its own properties, in insertion order,
  each a column name with the array of its tasks. The store is the \<^verbatim>\<open>Map\<close>
  \<^verbatim>\<open>projectsData\<close> from project id to board, in insertion order as well. Writing an
  existing key keeps its place and writing a new key appends it, which is what
  \<open>AList.update\<close> does.
\<close>

type_synonym board = "(string \<times> task list) list"

type_synonym projectId = int

type_synonym store = "(projectId \<times> board) list"

text \<open>
  Reading \<^verbatim>\<open>projectData[name]\<close> finds an own property, or else a property inherited
  from \<^verbatim>\<open>Object.prototype\<close> (a function, or the prototype object itself for
  \<^verbatim>\<open>__proto__\<close>: truthy, and without \<^verbatim>\<open>push\<close>, \<^verbatim>\<open>find\<close> or \<^verbatim>\<open>filter\<close>), or
  else \<^verbatim>\<open>undefined\<close>.
\<close>

definition objectPrototypeKeys :: "string list" where
  "objectPrototypeKeys =
     [''constructor'', ''__proto__'', ''hasOwnProperty'', ''isPrototypeOf'',
      ''propertyIsEnumerable'', ''toLocaleString'', ''toString'', ''valueOf'',
      ''__defineGetter__'', ''__defineSetter__'', ''__lookupGetter__'',
      ''__lookupSetter__'']"

datatype property = Own "task list" | Inherited | Undefined

definition getProp :: "board \<Rightarrow> string \<Rightarrow> property" where
  "getProp b name =
     (case map_of b name of
        Some ts \<Rightarrow> Own ts
      | None \<Rightarrow> if name \<in> set objectPrototypeKeys then Inherited else Undefined)"

text \<open>
  A method either returns or throws. The only exception the store can raise is the
  \<^verbatim>\<open>TypeError\<close> of calling a method on a value that does not have it; code outside
  the services (a listener) may throw anything.
\<close>

datatype jsError = TypeError | UserError string

datatype completion = Returned | Threw jsError

subsection \<open>The default data of \<^verbatim>\<open>initializeDefaultData\<close>\<close>

definition project1 :: board where
  "project1 =
    [(''TO DO'',
      [\<lparr>task_id = ''PA-1'', title = ''User Authentication System'', tag = ''AUTHENTICATION'',
        description = ''Implement user login and registration system with JWT tokens'',
        due_date = ''2025-02-05'', assignee_id = Some 1\<rparr>,
       \<lparr>task_id = ''PA-2'', title = ''Database Schema Design'', tag = ''DATABASE'',
        description = ''Design and implement PostgreSQL database schema for user management'',
        due_date = ''2025-02-03'', assignee_id = Some 2\<rparr>,
       \<lparr>task_id = ''PA-3'', title = ''Frontend Component Library'', tag = ''FRONTEND'',
        description = ''Create reusable React components for the application'',
        due_date = ''2025-02-10'', assignee_id = Some 3\<rparr>]),
     (''IN PROGRESS'',
      [\<lparr>task_id = ''PA-4'', title = ''REST API Development'', tag = ''BACKEND'',
        description = ''Develop REST API endpoints for CRUD operations'',
        due_date = ''2025-02-04'', assignee_id = Some 6\<rparr>,
       \<lparr>task_id = ''PA-5'', title = ''User Interface Mockups'', tag = ''DESIGN'',
        description = ''Create high-fidelity mockups for main application screens'',
        due_date = ''2025-02-02'', assignee_id = Some 3\<rparr>]),
     (''IN REVIEW'',
      [\<lparr>task_id = ''PA-6'', title = ''Security Implementation'', tag = ''SECURITY'',
        description = ''Implement OAuth2 and security middleware'',
        due_date = ''2025-02-15'', assignee_id = Some 2\<rparr>,
       \<lparr>task_id = ''PA-7'', title = ''Unit Testing Setup'', tag = ''TESTING'',
        description = ''Set up Jest and testing framework for backend APIs'',
        due_date = ''2025-02-01'', assignee_id = Some 7\<rparr>]),
     (''DONE'',
      [\<lparr>task_id = ''PA-8'', title = ''Project Setup & Configuration'', tag = ''SETUP'',
        description = ''Initialize project structure and development environment'',
        due_date = ''2024-01-30'', assignee_id = Some 6\<rparr>,
       \<lparr>task_id = ''PA-9'', title = ''Requirements Analysis'', tag = ''PLANNING'',
        description = ''Gather and document functional requirements'',
        due_date = ''2024-01-25'', assignee_id = Some 1\<rparr>])]"

definition project2 :: board where
  "project2 =
    [(''TO DO'',
      [\<lparr>task_id = ''PB-1'', title = ''Product Catalog Frontend'', tag = ''FRONTEND'',
        description = ''Build responsive product catalog with search and filtering'',
        due_date = ''2025-02-06'', assignee_id = Some 3\<rparr>,
       \<lparr>task_id = ''PB-2'', title = ''Payment Gateway Integration'', tag = ''PAYMENT'',
        description = ''Integrate Stripe payment processing with checkout flow'',
        due_date = ''2024-03-01'', assignee_id = Some 2\<rparr>,
       \<lparr>task_id = ''PB-3'', title = ''Inventory Management System'', tag = ''BACKEND'',
        description = ''Develop inventory tracking and stock management APIs'',
        due_date = ''2024-02-28'', assignee_id = Some 6\<rparr>]),
     (''IN PROGRESS'',
      [\<lparr>task_id = ''PB-4'', title = ''Shopping Cart Functionality'', tag = ''FRONTEND'',
        description = ''Implement add to cart, quantity updates, and cart persistence'',
        due_date = ''2025-02-04'', assignee_id = Some 3\<rparr>,
       \<lparr>task_id = ''PB-5'', title = ''Order Management Backend'', tag = ''BACKEND'',
        description = ''Create APIs for order processing and status tracking'',
        due_date = ''2024-02-20'', assignee_id = Some 2\<rparr>,
       \<lparr>task_id = ''PB-6'', title = ''Product Images & Media'', tag = ''DESIGN'',
        description = ''Design and implement product image gallery and zoom features'',
        due_date = ''2024-02-16'', assignee_id = Some 8\<rparr>]),
     (''IN REVIEW'',
      [\<lparr>task_id = ''PB-7'', title = ''User Reviews & Ratings'', tag = ''FEATURE'',
        description = ''Allow users to rate and review products with moderation'',
        due_date = ''2024-02-22'', assignee_id = Some 6\<rparr>,
       \<lparr>task_id = ''PB-8'', title = ''Email Notifications'', tag = ''NOTIFICATION'',
        description = ''Send order confirmations and shipping notifications'',
        due_date = ''2024-02-19'', assignee_id = Some 4\<rparr>]),
     (''DONE'',
      [\<lparr>task_id = ''PB-9'', title = ''Database Design'', tag = ''DATABASE'',
        description = ''Design e-commerce database schema for products, orders, users'',
        due_date = ''2024-02-05'', assignee_id = Some 2\<rparr>,
       \<lparr>task_id = ''PB-10'', title = ''Brand Identity & Logo'', tag = ''DESIGN'',
        description = ''Create brand guidelines and logo for e-commerce platform'',
        due_date = ''2024-02-01'', assignee_id = Some 8\<rparr>])]"

definition project3 :: board where
  "project3 =
    [(''TO DO'',
      [\<lparr>task_id = ''PC-1'', title = ''Push Notifications System'', tag = ''MOBILE'',
        description = ''Implement Firebase push notifications for iOS and Android'',
        due_date = ''2024-02-28'', assignee_id = Some 5\<rparr>,
       \<lparr>task_id = ''PC-2'', title = ''Offline Data Sync'', tag = ''MOBILE'',
        description = ''Implement offline mode with data synchronization'',
        due_date = ''2024-03-05'', assignee_id = Some 6\<rparr>,
       \<lparr>task_id = ''PC-3'', title = ''App Store Optimization'', tag = ''MARKETING'',
        description = ''Prepare app store listings and optimize for discovery'',
        due_date = ''2024-03-10'', assignee_id = Some 4\<rparr>]),
     (''IN PROGRESS'',
      [\<lparr>task_id = ''PC-4'', title = ''React Native Setup'', tag = ''MOBILE'',
        description = ''Initialize React Native project with navigation and state management'',
        due_date = ''2025-02-03'', assignee_id = Some 6\<rparr>,
       \<lparr>task_id = ''PC-5'', title = ''API Integration Layer'', tag = ''INTEGRATION'',
        description = ''Connect mobile app with backend REST APIs'',
        due_date = ''2024-02-24'', assignee_id = Some 1\<rparr>,
       \<lparr>task_id = ''PC-6'', title = ''User Authentication Flow'', tag = ''MOBILE'',
        description = ''Implement login, signup, and session management'',
        due_date = ''2024-02-20'', assignee_id = Some 6\<rparr>,
       \<lparr>task_id = ''PC-7'', title = ''Camera Integration'', tag = ''FEATURE'',
        description = ''Add photo capture and image processing features'',
        due_date = ''2024-02-26'', assignee_id = Some 5\<rparr>]),
     (''IN REVIEW'',
      [\<lparr>task_id = ''PC-8'', title = ''App Icon & Splash Screen'', tag = ''DESIGN'',
        description = ''Design app icon and splash screen for both platforms'',
        due_date = ''2024-02-14'', assignee_id = Some 8\<rparr>]),
     (''DONE'',
      [\<lparr>task_id = ''PC-9'', title = ''Market Research & Analysis'', tag = ''RESEARCH'',
        description = ''Analyze competitor apps and user behavior patterns'',
        due_date = ''2024-01-25'', assignee_id = Some 4\<rparr>,
       \<lparr>task_id = ''PC-10'', title = ''UI/UX Wireframes'', tag = ''DESIGN'',
        description = ''Create detailed wireframes and user flow diagrams'',
        due_date = ''2024-02-02'', assignee_id = Some 8\<rparr>,
       \<lparr>task_id = ''PC-11'', title = ''Technical Architecture'', tag = ''ARCHITECTURE'',
        description = ''Define mobile app architecture and technology stack'',
        due_date = ''2024-02-08'', assignee_id = Some 7\<rparr>])]"

definition initializeDefaultData :: store where
  "initializeDefaultData = [(1, project1), (2, project2), (3, project3)]"

subsection \<open>The operations\<close>

definition emptyBoard :: board where
  "emptyBoard = [(''TO DO'', []), (''IN PROGRESS'', []), (''IN REVIEW'', []), (''DONE'', [])]"

text \<open>\<^verbatim>\<open>getProjectData\<close>: an unknown project is created with four empty columns.\<close>

definition getProjectData :: "projectId \<Rightarrow> store \<Rightarrow> board \<times> store" where
  "getProjectData projectId s =
     (case map_of s projectId of
        Some b \<Rightarrow> (b, s)
      | None \<Rightarrow> (emptyBoard, AList.update projectId emptyBoard s))"

definition updateProjectData :: "projectId \<Rightarrow> board \<Rightarrow> store \<Rightarrow> store" where
  "updateProjectData projectId newData s = AList.update projectId newData s"

text \<open>
  \<^verbatim>\<open>addTaskToProject\<close>: the guard \<^verbatim>\<open>if (projectData[columnName])\<close> lets an own column
  and an inherited property through; \<^verbatim>\<open>push\<close> on the latter throws before anything is
  written. The board returned by \<^verbatim>\<open>getProjectData\<close> is the stored object itself, so the
  push is already a write to the store; \<^verbatim>\<open>updateProjectData\<close> then stores the same
  object again.
\<close>

definition addTaskToProject ::
  "projectId \<Rightarrow> string \<Rightarrow> task \<Rightarrow> store \<Rightarrow> completion \<times> store" where
  "addTaskToProject projectId columnName t s =
     (let (projectData, s1) = getProjectData projectId s in
      case getProp projectData columnName of
        Own ts \<Rightarrow>
          (Returned,
           updateProjectData projectId (AList.update columnName (ts @ [t]) projectData) s1)
      | Inherited \<Rightarrow> (Threw TypeError, s1)
      | Undefined \<Rightarrow> (Returned, s1))"

text \<open>
  \<^verbatim>\<open>moveTaskInProject\<close>: \<^verbatim>\<open>projectData[fromColumn]?.find(...)\<close> is \<^verbatim>\<open>undefined\<close> when the
  column is, and throws when the property is inherited. When the task is found, the
  source column is reassigned first (a write to the stored object), and then
  \<^verbatim>\<open>projectData[toColumn].push(task)\<close> runs with no guard: it throws when \<^verbatim>\<open>toColumn\<close> is
  no own column, after the removal and before \<^verbatim>\<open>updateProjectData\<close>.
\<close>

definition moveTaskInProject ::
  "projectId \<Rightarrow> string \<Rightarrow> string \<Rightarrow> string \<Rightarrow> store \<Rightarrow> completion \<times> store" where
  "moveTaskInProject projectId taskId fromColumn toColumn s =
     (let (projectData, s1) = getProjectData projectId s in
      case getProp projectData fromColumn of
        Undefined \<Rightarrow> (Returned, s1)
      | Inherited \<Rightarrow> (Threw TypeError, s1)
      | Own ts \<Rightarrow>
          (case find (\<lambda>t. task_id t = taskId) ts of
             None \<Rightarrow> (Returned, s1)
           | Some task \<Rightarrow>
               (let removed =
                      AList.update fromColumn (filter (\<lambda>t. task_id t \<noteq> taskId) ts) projectData
                in case getProp removed toColumn of
                     Own us \<Rightarrow>
                       (Returned,
                        updateProjectData projectId
                          (AList.update toColumn (us @ [task]) removed) s1)
                   | Inherited \<Rightarrow> (Threw TypeError, AList.update projectId removed s1)
                   | Undefined \<Rightarrow> (Threw TypeError, AList.update projectId removed s1))))"

definition deleteTaskFromProject ::
  "projectId \<Rightarrow> string \<Rightarrow> string \<Rightarrow> store \<Rightarrow> completion \<times> store" where
  "deleteTaskFromProject projectId taskId columnName s =
     (let (projectData, s1) = getProjectData projectId s in
      case getProp projectData columnName of
        Own ts \<Rightarrow>
          (Returned,
           updateProjectData projectId
             (AList.update columnName (filter (\<lambda>t. task_id t \<noteq> taskId) ts) projectData) s1)
      | Inherited \<Rightarrow> (Threw TypeError, s1)
      | Undefined \<Rightarrow> (Returned, s1))"

definition getAllProjectIds :: "store \<Rightarrow> projectId list" where
  "getAllProjectIds s = map fst s"

definition clearProjectData :: "projectId \<Rightarrow> store \<Rightarrow> store" where
  "clearProjectData projectId s = AList.update projectId emptyBoard s"

subsection \<open>The updater of \<^verbatim>\<open>handleMoveTask\<close> (\<^verbatim>\<open>Board.jsx\<close>)\<close>

text \<open>
  \<^verbatim>\<open>handleMoveTask\<close> hands \<^verbatim>\<open>setColumns\<close> an updater and then calls the store. The updater
  is given here as a function of the columns it is applied to, whatever they are then. It
  throws where the source reads or spreads a value that is no array.
\<close>

definition handleMoveTask_updater ::
  "string \<Rightarrow> string \<Rightarrow> string \<Rightarrow> board \<Rightarrow> jsError + board" where
  "handleMoveTask_updater taskId fromColumn toColumn prev =
     (case getProp prev fromColumn of
        Undefined \<Rightarrow> Inl TypeError
      | Inherited \<Rightarrow> Inl TypeError
      | Own ts \<Rightarrow>
          (case find (\<lambda>t. task_id t = taskId) ts of
             None \<Rightarrow> Inr prev
           | Some task \<Rightarrow>
               (case getProp prev toColumn of
                  Own us \<Rightarrow>
                    Inr (AList.update toColumn (us @ [task])
                          (AList.update fromColumn (filter (\<lambda>t. task_id t \<noteq> taskId) ts) prev))
                | Inherited \<Rightarrow> Inl TypeError
                | Undefined \<Rightarrow> Inl TypeError)))"

subsection \<open>Notions the properties are stated with\<close>

text \<open>The workflow stages, in the order every board lists them.\<close>

definition workflowColumns :: "string list" where
  "workflowColumns = [''TO DO'', ''IN PROGRESS'', ''IN REVIEW'', ''DONE'']"

text \<open>
  The stores that the operations named by the column invariant can produce from the
  default data, whatever their arguments and whether they return or throw.
\<close>

inductive reachable :: "store \<Rightarrow> bool" where
  reach_init: "reachable initializeDefaultData"
| reach_get: "reachable s \<Longrightarrow> reachable (snd (getProjectData p s))"
| reach_add: "reachable s \<Longrightarrow> reachable (snd (addTaskToProject p c t s))"
| reach_move: "reachable s \<Longrightarrow> reachable (snd (moveTaskInProject p i c c' s))"
| reach_delete: "reachable s \<Longrightarrow> reachable (snd (deleteTaskFromProject p i c s))"
| reach_clear: "reachable s \<Longrightarrow> reachable (clearProjectData p s)"

text \<open>The board a caller sees for a project, and the names of its columns.\<close>

definition boardOf :: "projectId \<Rightarrow> store \<Rightarrow> board" where
  "boardOf p s = fst (getProjectData p s)"

definition columnNames :: "board \<Rightarrow> string list" where
  "columnNames b = map fst b"

text \<open>
  The columns whose sequence holds a task with the given id, and how often the id
  occurs on the whole board.
\<close>

definition holders :: "board \<Rightarrow> string \<Rightarrow> string list" where
  "holders b i = map fst (filter (\<lambda>(c, ts). i \<in> set (map task_id ts)) b)"

definition occurrences :: "board \<Rightarrow> string \<Rightarrow> nat" where
  "occurrences b i = length (filter (\<lambda>t. task_id t = i) (concat (map snd b)))"

text \<open>
  Creating tasks one after the other in one column; a throw ends the run, as it would
  end the caller's loop.
\<close>

fun addTasks :: "projectId \<Rightarrow> string \<Rightarrow> task list \<Rightarrow> store \<Rightarrow> completion \<times> store" where
  "addTasks p c [] s = (Returned, s)"
| "addTasks p c (t # ts) s =
     (case addTaskToProject p c t s of
        (Returned, s') \<Rightarrow> addTasks p c ts s'
      | (Threw e, s') \<Rightarrow> (Threw e, s'))"

text \<open>Every stored board has the workflow columns, in their order.\<close>

definition columnsFixed :: "store \<Rightarrow> bool" where
  "columnsFixed s = (\<forall>b \<in> snd ` set s. columnNames b = workflowColumns)"

text \<open>A task as the creation form submits it, with the given id and title.\<close>

definition exampleTask :: "string \<Rightarrow> task" where
  "exampleTask i =
     \<lparr>task_id = i, title = i, tag = ''GENERAL'', description = [], due_date = [],
      assignee_id = None\<rparr>"

section \<open>The WebSocket client (\<^verbatim>\<open>websocketService.js\<close>)\<close>

subsection \<open>Values, exceptions of callbacks, the clock\<close>

text \<open>
  Messages are JSON values. A value that may be \<^verbatim>\<open>undefined\<close> is a \<open>json option\<close>.
  Reading a member of \<^verbatim>\<open>null\<close> or \<^verbatim>\<open>undefined\<close> throws; reading a member that an object
  does not have, or a member of a primitive or an array that is none of its own, gives
  \<^verbatim>\<open>undefined\<close>.
\<close>

datatype json =
  JNull | JBool bool | JNum int | JStr string | JArr "json list" | JObj "(string \<times> json) list"

definition getMember :: "json option \<Rightarrow> string \<Rightarrow> jsError + json option" where
  "getMember v k =
     (case v of
        None \<Rightarrow> Inl TypeError
      | Some JNull \<Rightarrow> Inl TypeError
      | Some (JObj fs) \<Rightarrow> Inr (map_of fs k)
      | Some _ \<Rightarrow> Inr None)"

definition isObject :: "json \<Rightarrow> bool" where
  "isObject v = (case v of JObj fs \<Rightarrow> True | _ \<Rightarrow> False)"

text \<open>
  An object literal \<^verbatim>\<open>{ a, b, c }\<close> as \<^verbatim>\<open>JSON.stringify\<close> writes it: a property whose value
  is \<^verbatim>\<open>undefined\<close> is left out.
\<close>

definition objectLiteral :: "(string \<times> json option) list \<Rightarrow> json" where
  "objectLiteral fs = JObj (concat (map (\<lambda>(k, v). case v of None \<Rightarrow> [] | Some x \<Rightarrow> [(k, x)]) fs))"

text \<open>
  \<^verbatim>\<open>new Date()\<close> is read through its UTC calendar fields (the month counted from 1).
  \<^verbatim>\<open>toISOString\<close> prints them as \<^verbatim>\<open>YYYY-MM-DDTHH:mm:ss.sssZ\<close>, each field padded with
  zeros; a year outside 0 to 9999 is printed with its sign and six digits.
\<close>

record date =
  year :: int
  month :: nat
  day :: nat
  hours :: nat
  minutes :: nat
  seconds :: nat
  milliseconds :: nat

definition validDate :: "date \<Rightarrow> bool" where
  "validDate d =
     (- 271821 \<le> year d \<and> year d \<le> 275760 \<and> 1 \<le> month d \<and> month d \<le> 12 \<and>
      1 \<le> day d \<and> day d \<le> 31 \<and> hours d < 24 \<and> minutes d < 60 \<and> seconds d < 60 \<and>
      milliseconds d < 1000)"

definition digitChar :: "nat \<Rightarrow> char" where
  "digitChar n = ''0123456789'' ! n"

fun showNat :: "nat \<Rightarrow> string" where
  "showNat n = (if n < 10 then [digitChar n] else showNat (n div 10) @ [digitChar (n mod 10)])"

declare showNat.simps [simp del]

definition padStart :: "nat \<Rightarrow> string \<Rightarrow> string" where
  "padStart w s = replicate (w - length s) (CHR ''0'') @ s"

definition yearString :: "int \<Rightarrow> string" where
  "yearString y =
     (if 0 \<le> y \<and> y \<le> 9999 then padStart 4 (showNat (nat y))
      else (if y < 0 then ''-'' else ''+'') @ padStart 6 (showNat (nat \<bar>y\<bar>)))"

definition toISOString :: "date \<Rightarrow> string" where
  "toISOString d =
     yearString (year d) @ ''-'' @ padStart 2 (showNat (month d)) @ ''-'' @
     padStart 2 (showNat (day d)) @ ''T'' @ padStart 2 (showNat (hours d)) @ '':'' @
     padStart 2 (showNat (minutes d)) @ '':'' @ padStart 2 (showNat (seconds d)) @ ''.'' @
     padStart 3 (showNat (milliseconds d)) @ ''Z''"

subsection \<open>The service, its socket and its surroundings\<close>

datatype readyState = CONNECTING | OPEN | CLOSING | CLOSED

text \<open>A socket, with the frames written to it by \<^verbatim>\<open>send\<close> (each the JSON text of a value).\<close>

record socket =
  socket_url :: string
  readyState :: readyState
  sent :: "json list"

text \<open>
  A listener is a function supplied by the page: it is given the payload, changes what it
  likes on the page, and returns or throws. While it runs it may also call back into the
  service to register a listener or to call the function that \<^verbatim>\<open>subscribe\<close> returned
  for a listener; these calls are listed in the order they are made, and they take effect
  whether the listener returns or throws. Other calls into the service from inside a
  listener are not modelled. A listener carries an identity, since \<^verbatim>\<open>indexOf\<close>
  compares functions by reference.
\<close>

datatype 'w callback =
  Callback (ident: nat) (run: "json option \<Rightarrow> 'w \<Rightarrow> completion \<times> 'w \<times> 'w call list")
and 'w call = Subscribe string "'w callback" | Unsubscribe string nat

record 'w service =
  ws :: "socket option"
  url :: string
  listeners :: "(string \<times> 'w callback list) list"
  reconnectAttempts :: nat
  maxReconnectAttempts :: nat
  reconnectInterval :: nat
  isConnected :: bool
  onlineUsers :: "json option"

datatype level = LOG | WARN | ERROR

datatype timerAction = CallConnect string | CallAttemptReconnect string

text \<open>
  What the service acts on besides itself: the console (level and message; the values
  printed after the message are left out), the calls of \<^verbatim>\<open>setTimeout\<close> made so far (delay
  in milliseconds and what is to be called), the clock, and the page the listeners live
  in.
\<close>

record 'w env =
  console :: "(level \<times> string) list"
  timers :: "(nat \<times> timerAction) list"
  now :: date
  page :: 'w

definition constructor :: "unit \<Rightarrow> 'w service" where
  "constructor u =
     \<lparr>ws = None, url = ''ws://localhost:8000/ws'', listeners = [], reconnectAttempts = 0,
      maxReconnectAttempts = 5, reconnectInterval = 3000, isConnected = False,
      onlineUsers = Some (JNum 0)\<rparr>"

definition consoleWrite :: "level \<Rightarrow> string \<Rightarrow> 'w env \<Rightarrow> 'w env" where
  "consoleWrite l m e = e\<lparr>console := console e @ [(l, m)]\<rparr>"

subsection \<open>Listeners\<close>

definition subscribe :: "string \<Rightarrow> 'w callback \<Rightarrow> 'w service \<Rightarrow> 'w service" where
  "subscribe event callback svc =
     (case map_of (listeners svc) event of
        None \<Rightarrow> svc\<lparr>listeners := AList.update event [callback] (listeners svc)\<rparr>
      | Some callbacks \<Rightarrow>
          svc\<lparr>listeners := AList.update event (callbacks @ [callback]) (listeners svc)\<rparr>)"

text \<open>
  The function \<^verbatim>\<open>subscribe\<close> returns, for the callback of the given identity: it
  removes the first occurrence of the callback from the array of the event, in place.
\<close>

fun removeFirst :: "('a \<Rightarrow> bool) \<Rightarrow> 'a list \<Rightarrow> 'a list" where
  "removeFirst P [] = []"
| "removeFirst P (x # xs) = (if P x then xs else x # removeFirst P xs)"

definition unsubscribe :: "string \<Rightarrow> nat \<Rightarrow> 'w service \<Rightarrow> 'w service" where
  "unsubscribe event callbackId svc =
     (case map_of (listeners svc) event of
        None \<Rightarrow> svc
      | Some callbacks \<Rightarrow>
          svc\<lparr>listeners :=
                AList.update event (removeFirst (\<lambda>c. ident c = callbackId) callbacks)
                  (listeners svc)\<rparr>)"

definition applyCall :: "'w service \<Rightarrow> 'w call \<Rightarrow> 'w service" where
  "applyCall svc c =
     (case c of
        Subscribe event callback \<Rightarrow> subscribe event callback svc
      | Unsubscribe event callbackId \<Rightarrow> unsubscribe event callbackId svc)"

text \<open>
  The body of \<^verbatim>\<open>notifyListeners\<close>: \<^verbatim>\<open>forEach\<close> over the array of the event, each call
  inside \<^verbatim>\<open>try\<close>; what a callback throws is written to the console and the loop goes
  on. \<^verbatim>\<open>forEach\<close> fixes the number of indices when it starts and then reads the array
  itself at each index: an index that the array no longer has is passed over, and what a
  callback has removed from or added to the array in the meantime is seen. Neither
  \<^verbatim>\<open>subscribe\<close> nor the function it returns replaces the array of an event that has
  one, so the array the loop runs over is the one the service holds for the event. The
  first argument counts the indices still to come, the second is the index.
\<close>

fun forEachCallback ::
  "nat \<Rightarrow> nat \<Rightarrow> string \<Rightarrow> json option \<Rightarrow> 'w service \<Rightarrow> 'w env \<Rightarrow> 'w service \<times> 'w env" where
  "forEachCallback 0 k event d svc e = (svc, e)"
| "forEachCallback (Suc n) k event d svc e =
     (case map_of (listeners svc) event of
        None \<Rightarrow> forEachCallback n (Suc k) event d svc e
      | Some callbacks \<Rightarrow>
          if k < length callbacks then
            (case run (callbacks ! k) d (page e) of
               (Returned, w, calls) \<Rightarrow>
                 forEachCallback n (Suc k) event d (foldl applyCall svc calls) (e\<lparr>page := w\<rparr>)
             | (Threw err, w, calls) \<Rightarrow>
                 forEachCallback n (Suc k) event d (foldl applyCall svc calls)
                   (consoleWrite ERROR ''Error in WebSocket listener:'' (e\<lparr>page := w\<rparr>)))
          else forEachCallback n (Suc k) event d svc e)"

definition notifyListeners ::
  "string \<Rightarrow> json option \<Rightarrow> 'w service \<Rightarrow> 'w env \<Rightarrow> completion \<times> 'w service \<times> 'w env" where
  "notifyListeners event d svc e =
     (case map_of (listeners svc) event of
        None \<Rightarrow> (Returned, svc, e)
      | Some callbacks \<Rightarrow>
          (case forEachCallback (length callbacks) 0 event d svc e of
             (svc', e') \<Rightarrow> (Returned, svc', e')))"

subsection \<open>Inbound messages\<close>

definition handleMessage ::
  "json \<Rightarrow> 'w service \<Rightarrow> 'w env \<Rightarrow> completion \<times> 'w service \<times> 'w env" where
  "handleMessage data svc e =
     (case getMember (Some data) ''type'' of
        Inl err \<Rightarrow> (Threw err, svc, e)
      | Inr ty \<Rightarrow>
          (case getMember (Some data) ''payload'' of
             Inl err \<Rightarrow> (Threw err, svc, e)
           | Inr payload \<Rightarrow>
               if ty = Some (JStr ''task_created'') then notifyListeners ''taskCreated'' payload svc e
               else if ty = Some (JStr ''task_updated'') then notifyListeners ''taskUpdated'' payload svc e
               else if ty = Some (JStr ''task_moved'') then notifyListeners ''taskMoved'' payload svc e
               else if ty = Some (JStr ''task_deleted'') then notifyListeners ''taskDeleted'' payload svc e
               else if ty = Some (JStr ''user_count'') then
                 (case getMember payload ''count'' of
                    Inl err \<Rightarrow> (Threw err, svc, e)
                  | Inr n \<Rightarrow> notifyListeners ''userCount'' payload (svc\<lparr>onlineUsers := n\<rparr>) e)
               else if ty = Some (JStr ''board_sync'') then notifyListeners ''boardSync'' payload svc e
               else (Returned, svc, consoleWrite LOG ''Unknown message type:'' e)))"

text \<open>
  \<^verbatim>\<open>ws.onmessage\<close>: the text of the frame is parsed (\<open>None\<close> stands for a text that
  \<^verbatim>\<open>JSON.parse\<close> rejects) and handled; whatever either throws is caught and logged.
\<close>

definition onmessage ::
  "json option \<Rightarrow> 'w service \<Rightarrow> 'w env \<Rightarrow> completion \<times> 'w service \<times> 'w env" where
  "onmessage parsed svc e =
     (case parsed of
        None \<Rightarrow> (Returned, svc, consoleWrite ERROR ''Error parsing WebSocket message:'' e)
      | Some data \<Rightarrow>
          (case handleMessage data svc e of
             (Returned, svc', e') \<Rightarrow> (Returned, svc', e')
           | (Threw err, svc', e') \<Rightarrow>
               (Returned, svc', consoleWrite ERROR ''Error parsing WebSocket message:'' e')))"

text \<open>Frames arriving one after the other.\<close>

fun onmessages :: "json list \<Rightarrow> 'w service \<Rightarrow> 'w env \<Rightarrow> 'w service \<times> 'w env" where
  "onmessages [] svc e = (svc, e)"
| "onmessages (data # rest) svc e =
     (case onmessage (Some data) svc e of (c, svc', e') \<Rightarrow> onmessages rest svc' e')"

subsection \<open>Outbound messages\<close>

definition sendMessage ::
  "string \<Rightarrow> json \<Rightarrow> 'w service \<Rightarrow> 'w env \<Rightarrow> completion \<times> 'w service \<times> 'w env" where
  "sendMessage type payload svc e =
     (case ws svc of
        None \<Rightarrow>
          (Returned, svc, consoleWrite WARN (''WebSocket is not connected, skipping message: '' @ type) e)
      | Some sock \<Rightarrow>
          if readyState sock = OPEN then
            (let message =
                   JObj [(''type'', JStr type), (''payload'', payload),
                         (''timestamp'', JStr (toISOString (now e)))]
             in (Returned,
                 svc\<lparr>ws := Some (sock\<lparr>sent := sent sock @ [message]\<rparr>)\<rparr>,
                 consoleWrite LOG (''Sent WebSocket message: '' @ type) e))
          else
            (Returned, svc, consoleWrite WARN (''WebSocket is not connected, skipping message: '' @ type) e))"

definition createTask ::
  "json option \<Rightarrow> json option \<Rightarrow> json option \<Rightarrow> 'w service \<Rightarrow> 'w env
     \<Rightarrow> completion \<times> 'w service \<times> 'w env" where
  "createTask task column projectId =
     sendMessage ''create_task''
       (objectLiteral [(''task'', task), (''column'', column), (''projectId'', projectId)])"

definition updateTask ::
  "json option \<Rightarrow> json option \<Rightarrow> json option \<Rightarrow> 'w service \<Rightarrow> 'w env
     \<Rightarrow> completion \<times> 'w service \<times> 'w env" where
  "updateTask taskId updates projectId =
     sendMessage ''update_task''
       (objectLiteral [(''taskId'', taskId), (''updates'', updates), (''projectId'', projectId)])"

definition moveTask ::
  "json option \<Rightarrow> json option \<Rightarrow> json option \<Rightarrow> json option \<Rightarrow> json option \<Rightarrow> 'w service
     \<Rightarrow> 'w env \<Rightarrow> completion \<times> 'w service \<times> 'w env" where
  "moveTask taskId fromColumn toColumn position projectId =
     sendMessage ''move_task''
       (objectLiteral [(''taskId'', taskId), (''fromColumn'', fromColumn), (''toColumn'', toColumn),
                       (''position'', position), (''projectId'', projectId)])"

definition deleteTask ::
  "json option \<Rightarrow> json option \<Rightarrow> json option \<Rightarrow> 'w service \<Rightarrow> 'w env
     \<Rightarrow> completion \<times> 'w service \<times> 'w env" where
  "deleteTask taskId column projectId =
     sendMessage ''delete_task''
       (objectLiteral [(''taskId'', taskId), (''column'', column), (''projectId'', projectId)])"

definition requestBoardSync ::
  "json option \<Rightarrow> 'w service \<Rightarrow> 'w env \<Rightarrow> completion \<times> 'w service \<times> 'w env" where
  "requestBoardSync projectId =
     sendMessage ''request_board_sync'' (objectLiteral [(''projectId'', projectId)])"

subsection \<open>Connecting and reconnecting\<close>

definition attemptReconnect ::
  "string \<Rightarrow> 'w service \<Rightarrow> 'w env \<Rightarrow> completion \<times> 'w service \<times> 'w env" where
  "attemptReconnect userId svc e =
     (if reconnectAttempts svc < maxReconnectAttempts svc then
        (let svc' = svc\<lparr>reconnectAttempts := reconnectAttempts svc + 1\<rparr>;
             e' = consoleWrite LOG
                    (''Attempting to reconnect... ('' @ showNat (reconnectAttempts svc') @ ''/'' @
                     showNat (maxReconnectAttempts svc') @ '')'') e
         in (Returned, svc', e'\<lparr>timers := timers e' @ [(reconnectInterval svc', CallConnect userId)]\<rparr>))
      else (Returned, svc, consoleWrite LOG ''Max reconnection attempts reached'' e))"

text \<open>
  \<^verbatim>\<open>connect\<close>: whether \<^verbatim>\<open>new WebSocket(...)\<close> throws is the platform's decision, given
  here as \<open>constructs\<close>. The error object handed to the listeners is opaque.
\<close>

definition connect ::
  "string \<Rightarrow> bool \<Rightarrow> 'w service \<Rightarrow> 'w env \<Rightarrow> completion \<times> 'w service \<times> 'w env" where
  "connect userId constructs svc e =
     (if (case ws svc of Some sock \<Rightarrow> readyState sock = OPEN | None \<Rightarrow> False) then
        (Returned, svc, consoleWrite LOG ''WebSocket already connected'' e)
      else
        (let e1 = consoleWrite LOG
                    (''Attempting to connect to WebSocket: '' @ url svc @ ''?user_id='' @ userId) e
         in if constructs then
              (Returned,
               svc\<lparr>ws := Some \<lparr>socket_url = url svc @ ''?user_id='' @ userId,
                                readyState = CONNECTING, sent = []\<rparr>\<rparr>,
               e1)
            else
              (case notifyListeners ''connection''
                      (Some (JObj [(''status'', JStr ''error''), (''error'', JObj [])])) svc
                      (consoleWrite ERROR ''Failed to create WebSocket connection:'' e1) of
                 (c, svc2, e2) \<Rightarrow>
                   (Returned, svc2\<lparr>isConnected := False\<rparr>,
                    e2\<lparr>timers := timers e2 @ [(reconnectInterval svc2, CallAttemptReconnect userId)]\<rparr>))))"

text \<open>
  The handlers \<^verbatim>\<open>connect\<close> puts on the socket. The platform has set the socket's
  \<^verbatim>\<open>readyState\<close> when it calls them.
\<close>

definition setReadyState :: "readyState \<Rightarrow> 'w service \<Rightarrow> 'w service" where
  "setReadyState r svc =
     (case ws svc of None \<Rightarrow> svc | Some sock \<Rightarrow> svc\<lparr>ws := Some (sock\<lparr>readyState := r\<rparr>)\<rparr>)"

definition onopen :: "'w service \<Rightarrow> 'w env \<Rightarrow> completion \<times> 'w service \<times> 'w env" where
  "onopen svc e =
     notifyListeners ''connection'' (Some (JObj [(''status'', JStr ''connected'')]))
       ((setReadyState OPEN svc)\<lparr>isConnected := True, reconnectAttempts := 0\<rparr>)
       (consoleWrite LOG ''WebSocket connected successfully'' e)"

definition onclose ::
  "nat \<Rightarrow> string \<Rightarrow> 'w service \<Rightarrow> 'w env \<Rightarrow> completion \<times> 'w service \<times> 'w env" where
  "onclose code userId svc e =
     (case notifyListeners ''connection'' (Some (JObj [(''status'', JStr ''disconnected'')]))
             ((setReadyState CLOSED svc)\<lparr>isConnected := False\<rparr>)
             (consoleWrite LOG ''WebSocket disconnected:'' e) of
        (c, svc1, e1) \<Rightarrow>
          if code \<noteq> 1000 then attemptReconnect userId svc1 e1 else (Returned, svc1, e1))"

definition onerror :: "'w service \<Rightarrow> 'w env \<Rightarrow> completion \<times> 'w service \<times> 'w env" where
  "onerror svc e =
     notifyListeners ''connection''
       (Some (JObj [(''status'', JStr ''error''), (''error'', JObj [])]))
       (svc\<lparr>isConnected := False\<rparr>)
       (consoleWrite ERROR ''WebSocket connection error:'' e)"

text \<open>
  The connection dropping again and again, each time with the close code given, with no
  successful open in between.
\<close>

fun drops :: "nat list \<Rightarrow> string \<Rightarrow> 'w service \<Rightarrow> 'w env \<Rightarrow> 'w service \<times> 'w env" where
  "drops [] userId svc e = (svc, e)"
| "drops (code # codes) userId svc e =
     (case onclose code userId svc e of (c, svc', e') \<Rightarrow> drops codes userId svc' e')"

text \<open>
  What can happen to the service between two successful opens: the socket closes with
  some code or reports an error; a timer set by \<^verbatim>\<open>attemptReconnect\<close> comes due and calls
  \<^verbatim>\<open>connect\<close>, where the platform makes the socket or throws; a timer set by the
  \<^verbatim>\<open>catch\<close> of \<^verbatim>\<open>connect\<close> comes due and calls \<^verbatim>\<open>attemptReconnect\<close>. A history is any
  sequence of these, in any order.
\<close>

datatype happening = Closes nat | Errors | ConnectDue bool | AttemptDue

fun happens ::
  "happening \<Rightarrow> string \<Rightarrow> 'w service \<Rightarrow> 'w env \<Rightarrow> completion \<times> 'w service \<times> 'w env" where
  "happens (Closes code) userId svc e = onclose code userId svc e"
| "happens Errors userId svc e = onerror svc e"
| "happens (ConnectDue constructs) userId svc e = connect userId constructs svc e"
| "happens AttemptDue userId svc e = attemptReconnect userId svc e"

fun history :: "happening list \<Rightarrow> string \<Rightarrow> 'w service \<Rightarrow> 'w env \<Rightarrow> 'w service \<times> 'w env" where
  "history [] userId svc e = (svc, e)"
| "history (h # hs) userId svc e =
     (case happens h userId svc e of (c, svc', e') \<Rightarrow> history hs userId svc' e')"

text \<open>The calls of \<^verbatim>\<open>setTimeout\<close> made from one moment to a later one.\<close>

definition timersSetSince :: "'w env \<Rightarrow> 'w env \<Rightarrow> (nat \<times> timerAction) list" where
  "timersSetSince e e' = drop (length (timers e)) (timers e')"

subsection \<open>Notions the properties are stated with\<close>

text \<open>
  A string in the pattern, where \<^verbatim>\<open>9\<close> stands for any digit and every other character for
  itself; the three shapes \<^verbatim>\<open>toISOString\<close> can print.
\<close>

definition isDigit :: "char \<Rightarrow> bool" where
  "isDigit c = (c \<in> set ''0123456789'')"

fun matchesPattern :: "string \<Rightarrow> string \<Rightarrow> bool" where
  "matchesPattern [] [] = True"
| "matchesPattern (p # ps) (c # cs) =
     ((if p = CHR ''9'' then isDigit c else c = p) \<and> matchesPattern ps cs)"
| "matchesPattern [] (c # cs) = False"
| "matchesPattern (p # ps) [] = False"

definition isISO8601 :: "string \<Rightarrow> bool" where
  "isISO8601 s =
     (matchesPattern ''9999-99-99T99:99:99.999Z'' s \<or>
      matchesPattern ''+999999-99-99T99:99:99.999Z'' s \<or>
      matchesPattern ''-999999-99-99T99:99:99.999Z'' s)"

text \<open>
  A listener that writes down what it is given; one that does so and then throws; and one
  that does so and calls the function \<^verbatim>\<open>subscribe\<close> returned for it, as a listener does
  that wants to be told once.
\<close>

definition recorder :: "nat \<Rightarrow> (nat \<times> json option) list callback" where
  "recorder n = Callback n (\<lambda>d w. (Returned, w @ [(n, d)], []))"

definition thrower :: "nat \<Rightarrow> (nat \<times> json option) list callback" where
  "thrower n = Callback n (\<lambda>d w. (Threw (UserError ''listener failed''), w @ [(n, d)], []))"

definition once :: "string \<Rightarrow> nat \<Rightarrow> (nat \<times> json option) list callback" where
  "once event n = Callback n (\<lambda>d w. (Returned, w @ [(n, d)], [Unsubscribe event n]))"

text \<open>
  A callback that, whatever it is given, leaves the listeners of the event alone: none of
  its calls names the event.
\<close>

definition callEvent :: "'w call \<Rightarrow> string" where
  "callEvent c = (case c of Subscribe event callback \<Rightarrow> event | Unsubscribe event n \<Rightarrow> event)"

definition leavesAlone :: "string \<Rightarrow> 'w callback \<Rightarrow> bool" where
  "leavesAlone event callback =
     (\<forall>d w. event \<notin> set (map callEvent (snd (snd (run callback d w)))))"

text \<open>The sequence number a payload carries, if it carries one.\<close>

definition sequenceOf :: "json option \<Rightarrow> int option" where
  "sequenceOf d =
     (case getMember d ''sequence'' of Inr (Some (JNum n)) \<Rightarrow> Some n | _ \<Rightarrow> None)"

definition recognizedTypes :: "string list" where
  "recognizedTypes =
     [''task_created'', ''task_updated'', ''task_moved'', ''task_deleted'', ''user_count'',
      ''board_sync'']"

text \<open>The callbacks registered for an event, in the order of the array.\<close>

definition callbacksFor :: "'w service \<Rightarrow> string \<Rightarrow> 'w callback list" where
  "callbacksFor svc event = (case map_of (listeners svc) event of None \<Rightarrow> [] | Some cbs \<Rightarrow> cbs)"

text \<open>The payload of a message, as \<^verbatim>\<open>data.payload\<close> reads it.\<close>

definition payloadOf :: "json \<Rightarrow> json option" where
  "payloadOf data = (case getMember (Some data) ''payload'' of Inr p \<Rightarrow> p | Inl err \<Rightarrow> None)"

text \<open>Whether \<^verbatim>\<open>sendMessage\<close> finds a socket that is open.\<close>

definition socketOpen :: "'w service \<Rightarrow> bool" where
  "socketOpen svc = (case ws svc of None \<Rightarrow> False | Some sock \<Rightarrow> readyState sock = OPEN)"

text \<open>The frames written to the service's socket so far.\<close>

definition framesSent :: "'w service \<Rightarrow> json list" where
  "framesSent svc = (case ws svc of None \<Rightarrow> [] | Some sock \<Rightarrow> sent sock)"

text \<open>Surroundings to start from: an empty console, no timers, an empty page.\<close>

definition env0 :: "(nat \<times> json option) list env" where
  "env0 =
     \<lparr>console = [], timers = [],
      now = \<lparr>year = 2025, month = 2, day = 5, hours = 9, minutes = 30, seconds = 7,
             milliseconds = 42\<rparr>,
      page = []\<rparr>"

text \<open>The service after \<^verbatim>\<open>connect\<close> and the socket's \<^verbatim>\<open>open\<close> event, with its surroundings.\<close>

definition connected :: "(nat \<times> json option) list service \<times> (nat \<times> json option) list env" where
  "connected =
     (case connect ''anonymous'' True (constructor ()) env0 of
        (c, svc, e) \<Rightarrow> (case onopen svc e of (c', svc', e') \<Rightarrow> (svc', e')))"

text \<open>
  The envelope of the protocol: an object with exactly the fields \<^verbatim>\<open>type\<close>, \<^verbatim>\<open>payload\<close>
  and \<^verbatim>\<open>timestamp\<close>, the first a string, the second an object, the third a string in the
  ISO 8601 shape.
\<close>

definition isEnvelope :: "json \<Rightarrow> bool" where
  "isEnvelope v =
     (case v of
        JObj fs \<Rightarrow>
          map fst fs = [''type'', ''payload'', ''timestamp''] \<and>
          (case map snd fs of
             [JStr t, p, JStr ts] \<Rightarrow> isObject p \<and> isISO8601 ts
           | _ \<Rightarrow> False)
      | _ \<Rightarrow> False)"

text \<open>A \<^verbatim>\<open>task_created\<close> message whose payload carries the given sequence number.\<close>

definition taskCreatedMessage :: "int \<Rightarrow> json" where
  "taskCreatedMessage n =
     JObj [(''type'', JStr ''task_created''), (''payload'', JObj [(''sequence'', JNum n)])]"

section \<open>The board component (\<^verbatim>\<open>Board.jsx\<close>) on the store's objects\<close>

text \<open>
  The component's state \<^verbatim>\<open>columns\<close> holds a reference to an object, not a copy of it: the
  effect that loads a project hands \<^verbatim>\<open>setColumns\<close> the object \<^verbatim>\<open>getProjectData\<close> returned,
  which is the one the store keeps. What the component shows therefore depends on who
  else writes to that object and to its arrays. So here the column objects and the task
  arrays live in a memory, each under its reference, and a property of a column object
  holds the reference of an array. Tasks are never written to after their creation and
  are kept as values.
\<close>

type_synonym ref = nat

record memory =
  arrays :: "(ref \<times> task list) list"
  objects :: "(ref \<times> (string \<times> ref) list) list"
  freshRef :: ref

text \<open>
  An array literal, a spread into an array literal and an object literal each make a new
  array or object, under a reference not in use: the next one of a counter.
\<close>

definition newArray :: "task list \<Rightarrow> memory \<Rightarrow> ref \<times> memory" where
  "newArray ts m =
     (freshRef m, m\<lparr>arrays := arrays m @ [(freshRef m, ts)], freshRef := freshRef m + 1\<rparr>)"

definition newObject :: "(string \<times> ref) list \<Rightarrow> memory \<Rightarrow> ref \<times> memory" where
  "newObject props m =
     (freshRef m, m\<lparr>objects := objects m @ [(freshRef m, props)], freshRef := freshRef m + 1\<rparr>)"

definition arrayAt :: "memory \<Rightarrow> ref \<Rightarrow> task list" where
  "arrayAt m a = (case map_of (arrays m) a of Some ts \<Rightarrow> ts | None \<Rightarrow> [])"

definition propertiesOf :: "memory \<Rightarrow> ref \<Rightarrow> (string \<times> ref) list" where
  "propertiesOf m r = (case map_of (objects m) r of Some props \<Rightarrow> props | None \<Rightarrow> [])"

text \<open>\<^verbatim>\<open>push\<close> writes to the array itself: every holder of its reference sees the new element.\<close>

definition push :: "ref \<Rightarrow> task \<Rightarrow> memory \<Rightarrow> memory" where
  "push a t m = m\<lparr>arrays := AList.update a (arrayAt m a @ [t]) (arrays m)\<rparr>"

text \<open>A column object written as a literal: one new array for each column, then the object.\<close>

fun newArrays :: "board \<Rightarrow> memory \<Rightarrow> (string \<times> ref) list \<times> memory" where
  "newArrays [] m = ([], m)"
| "newArrays ((c, ts) # b) m =
     (case newArray ts m of
        (a, m1) \<Rightarrow> (case newArrays b m1 of (props, m2) \<Rightarrow> ((c, a) # props, m2)))"

definition newBoard :: "board \<Rightarrow> memory \<Rightarrow> ref \<times> memory" where
  "newBoard b m = (case newArrays b m of (props, m1) \<Rightarrow> newObject props m1)"

text \<open>The board read through a reference: each column with the tasks its array holds now.\<close>

definition boardAt :: "memory \<Rightarrow> ref \<Rightarrow> board" where
  "boardAt m r = map (\<lambda>(c, a). (c, arrayAt m a)) (propertiesOf m r)"

subsection \<open>The store, holding references\<close>

text \<open>
  The service: the memory and the \<^verbatim>\<open>Map\<close> \<^verbatim>\<open>projectsData\<close> from project id to the reference
  of the project's column object. The operations below are those of the store above,
  with the sharing written out.
\<close>

record service_state =
  heap :: memory
  projectsData :: "(projectId \<times> ref) list"

definition setProject :: "projectId \<Rightarrow> board \<Rightarrow> 'a service_state_scheme \<Rightarrow> 'a service_state_scheme" where
  "setProject projectId b st =
     (case newBoard b (heap st) of
        (r, m) \<Rightarrow> st\<lparr>heap := m, projectsData := AList.update projectId r (projectsData st)\<rparr>)"

text \<open>The instance the module exports: the constructor has stored the default data.\<close>

definition projectDataService :: service_state where
  "projectDataService =
     setProject 3 project3 (setProject 2 project2 (setProject 1 project1
       \<lparr>heap = \<lparr>arrays = [], objects = [], freshRef = 0\<rparr>, projectsData = []\<rparr>))"

definition getProjectData_ref ::
  "projectId \<Rightarrow> 'a service_state_scheme \<Rightarrow> ref \<times> 'a service_state_scheme" where
  "getProjectData_ref projectId st =
     (case map_of (projectsData st) projectId of
        Some r \<Rightarrow> (r, st)
      | None \<Rightarrow>
          (case newBoard emptyBoard (heap st) of
             (r, m) \<Rightarrow>
               (r, st\<lparr>heap := m, projectsData := AList.update projectId r (projectsData st)\<rparr>)))"

definition updateProjectData_ref ::
  "projectId \<Rightarrow> ref \<Rightarrow> 'a service_state_scheme \<Rightarrow> 'a service_state_scheme" where
  "updateProjectData_ref projectId newData st =
     st\<lparr>projectsData := AList.update projectId newData (projectsData st)\<rparr>"

definition addTaskToProject_ref ::
  "projectId \<Rightarrow> string \<Rightarrow> task \<Rightarrow> 'a service_state_scheme
     \<Rightarrow> completion \<times> 'a service_state_scheme" where
  "addTaskToProject_ref projectId columnName t st =
     (case getProjectData_ref projectId st of
        (projectData, st1) \<Rightarrow>
          (case map_of (propertiesOf (heap st1) projectData) columnName of
             Some a \<Rightarrow>
               (Returned,
                updateProjectData_ref projectId projectData (st1\<lparr>heap := push a t (heap st1)\<rparr>))
           | None \<Rightarrow>
               if columnName \<in> set objectPrototypeKeys then (Threw TypeError, st1)
               else (Returned, st1)))"

subsection \<open>The component\<close>

text \<open>
  What \<^verbatim>\<open>setColumns\<close> is given: the next state, or an updater. The updater of
  \<^verbatim>\<open>handleAddTaskInline\<close> is a closure over \<^verbatim>\<open>columnTitle\<close> and \<^verbatim>\<open>taskWithId\<close>.
\<close>

datatype stateUpdate = NextState ref | AddTaskUpdater string task

text \<open>
  The component: the service it imports, its state \<^verbatim>\<open>columns\<close>, and the state updates
  that \<^verbatim>\<open>setColumns\<close> has queued for the next render.
\<close>

record component = service_state +
  columns :: ref
  queue :: "stateUpdate list"

text \<open>
  \<^verbatim>\<open>setColumns\<close> does not change \<^verbatim>\<open>columns\<close>; it queues the update. React works the queue
  off when it renders the component again, after the handler that called \<^verbatim>\<open>setColumns\<close>
  has returned: a next state replaces the state, an updater is called with the state as
  it is then. The updater \<^verbatim>\<open>(prev) => ({...prev, [columnTitle]: [...prev[columnTitle],
  taskWithId]})\<close> makes a new array from the elements that the array of the column holds at
  that moment, and a new object with the other properties of \<^verbatim>\<open>prev\<close> as they are; it
  throws when \<^verbatim>\<open>prev[columnTitle]\<close> is nothing that can be spread. A render in which an
  updater throws is given as a throw that leaves \<^verbatim>\<open>columns\<close> as it was; what React does
  with the component after that is not part of the model.
\<close>

definition setColumns :: "stateUpdate \<Rightarrow> component \<Rightarrow> component" where
  "setColumns u st = st\<lparr>queue := queue st @ [u]\<rparr>"

fun applyUpdate :: "stateUpdate \<Rightarrow> ref \<Rightarrow> memory \<Rightarrow> (jsError + ref) \<times> memory" where
  "applyUpdate (NextState r) prev m = (Inr r, m)"
| "applyUpdate (AddTaskUpdater columnTitle taskWithId) prev m =
     (case map_of (propertiesOf m prev) columnTitle of
        None \<Rightarrow> (Inl TypeError, m)
      | Some a \<Rightarrow>
          (case newArray (arrayAt m a @ [taskWithId]) m of
             (a', m1) \<Rightarrow>
               (case newObject (AList.update columnTitle a' (propertiesOf m prev)) m1 of
                  (r, m2) \<Rightarrow> (Inr r, m2))))"

fun applyQueue :: "stateUpdate list \<Rightarrow> ref \<Rightarrow> memory \<Rightarrow> (jsError + ref) \<times> memory" where
  "applyQueue [] r m = (Inr r, m)"
| "applyQueue (u # us) r m =
     (case applyUpdate u r m of
        (Inr r', m') \<Rightarrow> applyQueue us r' m'
      | (Inl err, m') \<Rightarrow> (Inl err, m'))"

definition render :: "component \<Rightarrow> completion \<times> component" where
  "render st =
     (case applyQueue (queue st) (columns st) (heap st) of
        (Inr r, m) \<Rightarrow> (Returned, st\<lparr>heap := m, columns := r, queue := []\<rparr>)
      | (Inl err, m) \<Rightarrow> (Threw err, st\<lparr>heap := m, queue := []\<rparr>))"

text \<open>
  The first render, with \<^verbatim>\<open>useState({})\<close>, and the effect that loads the project:
  \<^verbatim>\<open>setColumns(projectData)\<close> with the object of the store. The other effect, which
  reports the columns to the parent, only reads them.
\<close>

definition loadProject :: "projectId \<Rightarrow> component \<Rightarrow> component" where
  "loadProject projectId st =
     (case getProjectData_ref projectId st of
        (projectData, st1) \<Rightarrow> setColumns (NextState projectData) st1)"

definition mountBoard :: "projectId \<Rightarrow> service_state \<Rightarrow> component" where
  "mountBoard projectId svc =
     (case newObject [] (heap svc) of
        (r, m) \<Rightarrow>
          loadProject projectId
            \<lparr>heap = m, projectsData = projectsData svc, columns = r, queue = []\<rparr>)"

text \<open>
  \<^verbatim>\<open>handleAddTaskInline(columnTitle)(newTask)\<close>, with the value of \<^verbatim>\<open>Date.now()\<close>: the id is
  made, the updater is queued, and then the store is told, before React renders again.
\<close>

definition showInt :: "int \<Rightarrow> string" where
  "showInt i = (if i < 0 then ''-'' @ showNat (nat (- i)) else showNat (nat i))"

definition handleAddTaskInline ::
  "projectId \<Rightarrow> string \<Rightarrow> task \<Rightarrow> nat \<Rightarrow> component \<Rightarrow> completion \<times> component" where
  "handleAddTaskInline projectId columnTitle newTask dateNow st =
     (let taskWithId = newTask\<lparr>task_id := ''P'' @ showInt projectId @ ''-'' @ showNat dateNow\<rparr>
      in addTaskToProject_ref projectId columnTitle taskWithId
           (setColumns (AddTaskUpdater columnTitle taskWithId) st))"

subsection \<open>Notions the properties are stated with\<close>

text \<open>The board the component shows, and the board the store holds for a project.\<close>

definition shownBoard :: "component \<Rightarrow> board" where
  "shownBoard st = boardAt (heap st) (columns st)"

definition storedBoard :: "projectId \<Rightarrow> 'a service_state_scheme \<Rightarrow> board" where
  "storedBoard projectId st =
     (case map_of (projectsData st) projectId of Some r \<Rightarrow> boardAt (heap st) r | None \<Rightarrow> [])"

text \<open>The board of a project on the page, mounted and rendered with the project loaded.\<close>

definition boardMounted :: "projectId \<Rightarrow> component" where
  "boardMounted projectId = snd (render (mountBoard projectId projectDataService))"


section \<open>Properties of the board store\<close>

subsection \<open>Reading and writing boards\<close>

lemma in_set_update: "x \<in> set (AList.update k v al) \<Longrightarrow> x \<in> set al \<or> x = (k, v)"
  by (induction al) (auto split: if_splits)

lemma keys_update_present: "map_of al k = Some w \<Longrightarrow> map fst (AList.update k v al) = map fst al"
  by (induction al) (auto split: if_splits)

lemma getProp_Own: "getProp b c = Own ts \<longleftrightarrow> map_of b c = Some ts"
  by (simp add: getProp_def split: option.splits)

lemma getProp_update:
  "getProp (AList.update c v b) c' = (if c' = c then Own v else getProp b c')"
  by (simp add: getProp_def update_conv')

lemma boardOf_update: "boardOf p (AList.update q b s) = (if p = q then b else boardOf p s)"
  by (simp add: boardOf_def getProjectData_def update_conv' split: option.splits)

lemma boardOf_get: "boardOf q (snd (getProjectData p s)) = boardOf q s"
  by (auto simp: boardOf_def getProjectData_def update_conv' split: option.splits)

lemma getProjectData_known: "p \<in> fst ` set s \<Longrightarrow> snd (getProjectData p s) = s"
  by (auto simp: getProjectData_def map_of_eq_None_iff split: option.splits)

subsection \<open>The columns of a board\<close>

lemma columnsFixed_update:
  "columnsFixed s \<Longrightarrow> columnNames b = workflowColumns \<Longrightarrow> columnsFixed (AList.update p b s)"
  unfolding columnsFixed_def by (auto dest!: in_set_update)

lemma columnsFixed_lookup:
  "columnsFixed s \<Longrightarrow> map_of s p = Some b \<Longrightarrow> columnNames b = workflowColumns"
  unfolding columnsFixed_def by (auto dest!: map_of_SomeD intro: rev_image_eqI)

lemma columnNames_emptyBoard: "columnNames emptyBoard = workflowColumns"
  by (simp add: columnNames_def emptyBoard_def workflowColumns_def)

lemma columnNames_update:
  "map_of b c = Some ts \<Longrightarrow> columnNames (AList.update c us b) = columnNames b"
  by (simp add: columnNames_def keys_update_present)

lemma columnsFixed_get: "columnsFixed s \<Longrightarrow> columnsFixed (snd (getProjectData p s))"
  by (auto simp: getProjectData_def columnsFixed_update columnNames_emptyBoard split: option.splits)

lemma columnNames_get: "columnsFixed s \<Longrightarrow> columnNames (fst (getProjectData p s)) = workflowColumns"
  by (auto simp: getProjectData_def columnNames_emptyBoard columnsFixed_lookup split: option.splits)

lemma columnsFixed_add: "columnsFixed s \<Longrightarrow> columnsFixed (snd (addTaskToProject p c t s))"
  using columnsFixed_get[of s p] columnNames_get[of s p]
  by (auto simp: addTaskToProject_def updateProjectData_def getProp_Own columnNames_update
      intro!: columnsFixed_update split: prod.splits property.splits)

lemma columnsFixed_delete: "columnsFixed s \<Longrightarrow> columnsFixed (snd (deleteTaskFromProject p i c s))"
  using columnsFixed_get[of s p] columnNames_get[of s p]
  by (auto simp: deleteTaskFromProject_def updateProjectData_def getProp_Own columnNames_update
      intro!: columnsFixed_update split: prod.splits property.splits)

lemma columnsFixed_move: "columnsFixed s \<Longrightarrow> columnsFixed (snd (moveTaskInProject p i c c' s))"
  using columnsFixed_get[of s p] columnNames_get[of s p]
  by (auto simp: moveTaskInProject_def updateProjectData_def getProp_Own columnNames_update Let_def
      intro!: columnsFixed_update split: prod.splits property.splits option.splits)

lemma columnsFixed_clear: "columnsFixed s \<Longrightarrow> columnsFixed (clearProjectData p s)"
  by (simp add: clearProjectData_def columnsFixed_update columnNames_emptyBoard)

lemma columnsFixed_init: "columnsFixed initializeDefaultData"
  by (simp add: columnsFixed_def initializeDefaultData_def project1_def project2_def project3_def
      columnNames_def workflowColumns_def)

lemma reachable_columnsFixed: "reachable s \<Longrightarrow> columnsFixed s"
  by (induction rule: reachable.induct)
     (simp_all add: columnsFixed_init columnsFixed_get columnsFixed_add columnsFixed_move
        columnsFixed_delete columnsFixed_clear)

lemma update_append_fresh: "map_of al k = None \<Longrightarrow> AList.update k v al = al @ [(k, v)]"
  by (induction al) auto

lemma reachable_columnNames: "reachable s \<Longrightarrow> columnNames (boardOf p s) = workflowColumns"
  by (simp add: boardOf_def columnNames_get reachable_columnsFixed)

text \<open>
  C8. Every board of a store reachable through \<^verbatim>\<open>getProjectData\<close>, \<^verbatim>\<open>addTaskToProject\<close>,
  \<^verbatim>\<open>moveTaskInProject\<close>, \<^verbatim>\<open>deleteTaskFromProject\<close> and \<^verbatim>\<open>clearProjectData\<close> has exactly
  the columns TO DO, IN PROGRESS, IN REVIEW, DONE, in this order; so has the board handed
  out for any project id, each operation leaves the column names of every project as they
  were, whether it returns or throws, and a project the store does not know yet is loaded
  as these four columns, all empty: \<^verbatim>\<open>getProjectData\<close> hands out this board and has
  stored it under the project's id, at the end of the map, with the other projects as they
  were. \<^verbatim>\<open>clearProjectData\<close> stores the same four empty columns.
\<close>

theorem board_columns_fixed:
  assumes "reachable s"
  shows "(\<forall>b \<in> snd ` set s. columnNames b = [''TO DO'', ''IN PROGRESS'', ''IN REVIEW'', ''DONE'']) \<and>
         columnNames (boardOf q s) = [''TO DO'', ''IN PROGRESS'', ''IN REVIEW'', ''DONE''] \<and>
         columnNames (boardOf q (snd (getProjectData p s))) = columnNames (boardOf q s) \<and>
         columnNames (boardOf q (snd (addTaskToProject p c t s))) = columnNames (boardOf q s) \<and>
         columnNames (boardOf q (snd (moveTaskInProject p i c c' s))) = columnNames (boardOf q s) \<and>
         columnNames (boardOf q (snd (deleteTaskFromProject p i c s))) = columnNames (boardOf q s) \<and>
         columnNames (boardOf q (clearProjectData p s)) = columnNames (boardOf q s) \<and>
         (map_of s q = None \<longrightarrow>
            fst (getProjectData q s) =
              [(''TO DO'', []), (''IN PROGRESS'', []), (''IN REVIEW'', []), (''DONE'', [])]) \<and>
         (map_of s q = None \<longrightarrow>
            snd (getProjectData q s) =
              s @ [(q, [(''TO DO'', []), (''IN PROGRESS'', []), (''IN REVIEW'', []), (''DONE'', [])])] \<and>
            map_of (snd (getProjectData q s)) q =
              Some [(''TO DO'', []), (''IN PROGRESS'', []), (''IN REVIEW'', []), (''DONE'', [])]) \<and>
         (map_of s q \<noteq> None \<longrightarrow>
            snd (getProjectData q s) = s \<and> map_of s q = Some (fst (getProjectData q s))) \<and>
         map_of (clearProjectData p s) p =
           Some [(''TO DO'', []), (''IN PROGRESS'', []), (''IN REVIEW'', []), (''DONE'', [])]"
proof -
  have inv: "\<forall>b \<in> snd ` set s. columnNames b = [''TO DO'', ''IN PROGRESS'', ''IN REVIEW'', ''DONE'']"
    using reachable_columnsFixed[OF assms] by (simp add: columnsFixed_def workflowColumns_def)
  have here: "columnNames (boardOf q s) = workflowColumns"
    using assms by (rule reachable_columnNames)
  have g: "columnNames (boardOf q (snd (getProjectData p s))) = workflowColumns"
    by (rule reachable_columnNames[OF reach_get[OF assms]])
  have a: "columnNames (boardOf q (snd (addTaskToProject p c t s))) = workflowColumns"
    by (rule reachable_columnNames[OF reach_add[OF assms]])
  have m: "columnNames (boardOf q (snd (moveTaskInProject p i c c' s))) = workflowColumns"
    by (rule reachable_columnNames[OF reach_move[OF assms]])
  have d: "columnNames (boardOf q (snd (deleteTaskFromProject p i c s))) = workflowColumns"
    by (rule reachable_columnNames[OF reach_delete[OF assms]])
  have cl: "columnNames (boardOf q (clearProjectData p s)) = workflowColumns"
    by (rule reachable_columnNames[OF reach_clear[OF assms]])
  have fresh: "map_of s q = None \<longrightarrow>
      fst (getProjectData q s) =
        [(''TO DO'', []), (''IN PROGRESS'', []), (''IN REVIEW'', []), (''DONE'', [])]"
    by (simp add: getProjectData_def emptyBoard_def)
  have stored: "map_of s q = None \<longrightarrow>
      snd (getProjectData q s) =
        s @ [(q, [(''TO DO'', []), (''IN PROGRESS'', []), (''IN REVIEW'', []), (''DONE'', [])])] \<and>
      map_of (snd (getProjectData q s)) q =
        Some [(''TO DO'', []), (''IN PROGRESS'', []), (''IN REVIEW'', []), (''DONE'', [])]"
    by (simp add: getProjectData_def emptyBoard_def update_append_fresh map_add_def)
  have known: "map_of s q \<noteq> None \<longrightarrow>
      snd (getProjectData q s) = s \<and> map_of s q = Some (fst (getProjectData q s))"
    by (auto simp: getProjectData_def)
  have cleared: "map_of (clearProjectData p s) p =
      Some [(''TO DO'', []), (''IN PROGRESS'', []), (''IN REVIEW'', []), (''DONE'', [])]"
    by (simp add: clearProjectData_def emptyBoard_def update_conv')
  have rest: "(\<forall>b \<in> snd ` set s. columnNames b = [''TO DO'', ''IN PROGRESS'', ''IN REVIEW'', ''DONE'']) \<and>
         columnNames (boardOf q s) = [''TO DO'', ''IN PROGRESS'', ''IN REVIEW'', ''DONE''] \<and>
         columnNames (boardOf q (snd (getProjectData p s))) = columnNames (boardOf q s) \<and>
         columnNames (boardOf q (snd (addTaskToProject p c t s))) = columnNames (boardOf q s) \<and>
         columnNames (boardOf q (snd (moveTaskInProject p i c c' s))) = columnNames (boardOf q s) \<and>
         columnNames (boardOf q (snd (deleteTaskFromProject p i c s))) = columnNames (boardOf q s) \<and>
         columnNames (boardOf q (clearProjectData p s)) = columnNames (boardOf q s)"
    using inv here g a m d cl by (simp add: workflowColumns_def)
  from rest fresh stored known cleared show ?thesis by blast
qed

theorem board_columns_fixed_witness:
  "reachable (snd (moveTaskInProject 1 ''PA-1'' ''TO DO'' ''ARCHIVE'' initializeDefaultData)) \<and>
   columnNames (boardOf 1 (snd (moveTaskInProject 1 ''PA-1'' ''TO DO'' ''ARCHIVE'' initializeDefaultData)))
     = [''TO DO'', ''IN PROGRESS'', ''IN REVIEW'', ''DONE''] \<and>
   fst (getProjectData 7 (snd (moveTaskInProject 1 ''PA-1'' ''TO DO'' ''ARCHIVE'' initializeDefaultData)))
     = [(''TO DO'', []), (''IN PROGRESS'', []), (''IN REVIEW'', []), (''DONE'', [])] \<and>
   map_of (snd (getProjectData 7
       (snd (moveTaskInProject 1 ''PA-1'' ''TO DO'' ''ARCHIVE'' initializeDefaultData)))) 7
     = Some [(''TO DO'', []), (''IN PROGRESS'', []), (''IN REVIEW'', []), (''DONE'', [])]"
proof -
  let ?s = "snd (moveTaskInProject 1 ''PA-1'' ''TO DO'' ''ARCHIVE'' initializeDefaultData)"
  have r: "reachable ?s" by (rule reach_move[OF reach_init])
  have k: "map_of ?s 7 = None"
    by (simp add: moveTaskInProject_def getProjectData_def initializeDefaultData_def
        project1_def getProp_def objectPrototypeKeys_def update_conv')
  from board_columns_fixed[OF r, where q = 1]
  have a: "columnNames (boardOf 1 ?s) = [''TO DO'', ''IN PROGRESS'', ''IN REVIEW'', ''DONE'']"
    by blast
  from board_columns_fixed[OF r, where q = 7] k
  have b: "fst (getProjectData 7 ?s) =
        [(''TO DO'', []), (''IN PROGRESS'', []), (''IN REVIEW'', []), (''DONE'', [])]"
    and c: "map_of (snd (getProjectData 7 ?s)) 7 =
        Some [(''TO DO'', []), (''IN PROGRESS'', []), (''IN REVIEW'', []), (''DONE'', [])]"
    by blast+
  from r a b c show ?thesis by blast
qed

subsection \<open>Creating tasks\<close>

lemma addTaskToProject_own:
  assumes "getProp (boardOf p s) c = Own old"
  shows "addTaskToProject p c t s =
           (Returned, AList.update p (AList.update c (old @ [t]) (boardOf p s)) (snd (getProjectData p s)))"
  using assms by (auto simp: addTaskToProject_def updateProjectData_def boardOf_def split: prod.splits)

lemma addTasks_own:
  "getProp (boardOf p s) c = Own old \<Longrightarrow>
     fst (addTasks p c ts s) = Returned \<and>
     getProp (boardOf p (snd (addTasks p c ts s))) c = Own (old @ ts)"
proof (induction ts arbitrary: s old)
  case Nil
  then show ?case by simp
next
  case (Cons t ts)
  let ?s' = "AList.update p (AList.update c (old @ [t]) (boardOf p s)) (snd (getProjectData p s))"
  have step: "addTaskToProject p c t s = (Returned, ?s')"
    using Cons.prems by (rule addTaskToProject_own)
  have "getProp (boardOf p ?s') c = Own (old @ [t])"
    by (simp add: boardOf_update getProp_update)
  from Cons.IH[OF this] show ?case by (simp add: step)
qed

text \<open>
  In the store, when the target column is a column of the project's board,
  \<^verbatim>\<open>addTaskToProject\<close> returns and the column's sequence is the old one with the new task
  at its end; the other columns and the other projects are as before. A run of creations
  in one column appends the tasks in the order of creation, so three tasks created in an
  empty column give \<open>[t1, t2, t3]\<close>.
\<close>

lemma store_appends_created_task:
  assumes "getProp (boardOf p s) c = Own old"
  shows "fst (addTaskToProject p c t s) = Returned \<and>
         getProp (boardOf p (snd (addTaskToProject p c t s))) c = Own (old @ [t]) \<and>
         (\<forall>c'. c' \<noteq> c \<longrightarrow>
            getProp (boardOf p (snd (addTaskToProject p c t s))) c' = getProp (boardOf p s) c') \<and>
         (\<forall>q. q \<noteq> p \<longrightarrow> boardOf q (snd (addTaskToProject p c t s)) = boardOf q s) \<and>
         fst (addTasks p c ts s) = Returned \<and>
         getProp (boardOf p (snd (addTasks p c ts s))) c = Own (old @ ts) \<and>
         (old = [] \<longrightarrow>
            getProp (boardOf p (snd (addTasks p c [t1, t2, t3] s))) c = Own [t1, t2, t3])"
proof -
  note step = addTaskToProject_own[OF assms, of t]
  have a: "fst (addTaskToProject p c t s) = Returned" by (simp add: step)
  have b: "getProp (boardOf p (snd (addTaskToProject p c t s))) c = Own (old @ [t])"
    by (simp add: step boardOf_update getProp_update)
  have c: "\<forall>c'. c' \<noteq> c \<longrightarrow>
            getProp (boardOf p (snd (addTaskToProject p c t s))) c' = getProp (boardOf p s) c'"
    by (simp add: step boardOf_update getProp_update)
  have d: "\<forall>q. q \<noteq> p \<longrightarrow> boardOf q (snd (addTaskToProject p c t s)) = boardOf q s"
    by (simp add: step boardOf_update boardOf_get)
  have e: "fst (addTasks p c ts s) = Returned \<and>
           getProp (boardOf p (snd (addTasks p c ts s))) c = Own (old @ ts)"
    using assms by (rule addTasks_own)
  have f: "old = [] \<longrightarrow>
            getProp (boardOf p (snd (addTasks p c [t1, t2, t3] s))) c = Own [t1, t2, t3]"
    using addTasks_own[OF assms, of "[t1, t2, t3]"] by auto
  from a b c d e f show ?thesis by blast
qed

lemma store_keeps_three_tasks_in_order:
  "getProp (boardOf 4 initializeDefaultData) ''TO DO'' = Own [] \<and>
   getProp (boardOf 4 (snd (addTasks 4 ''TO DO''
       [exampleTask ''T1'', exampleTask ''T2'', exampleTask ''T3''] initializeDefaultData))) ''TO DO''
     = Own [exampleTask ''T1'', exampleTask ''T2'', exampleTask ''T3'']"
proof -
  have h: "getProp (boardOf 4 initializeDefaultData) ''TO DO'' = Own []"
    by (simp add: boardOf_def getProjectData_def initializeDefaultData_def emptyBoard_def
        getProp_def)
  from store_appends_created_task[OF h] h show ?thesis by simp
qed

subsection \<open>Moving a task that is not in the source column\<close>

lemma find_None_ids: "find (\<lambda>t. task_id t = i) ts = None \<longleftrightarrow> i \<notin> task_id ` set ts"
  by (auto simp: find_None_iff)

lemma find_Some_ids: "find (\<lambda>t. task_id t = i) ts = Some t \<Longrightarrow> t \<in> set ts \<and> task_id t = i"
  by (induction ts) (auto split: if_splits)

text \<open>
  C3, as the code has it. A move whose task is not in \<^verbatim>\<open>fromColumn\<close> changes no board:
  \<^verbatim>\<open>moveTaskInProject\<close> leaves the store as \<^verbatim>\<open>getProjectData\<close> left it (the very same
  store when the project is known), and it returns normally; it raises no error of its
  own, the one exception being the \<^verbatim>\<open>TypeError\<close> of the language when \<^verbatim>\<open>fromColumn\<close> names
  a property inherited from \<^verbatim>\<open>Object.prototype\<close>. The updater of \<^verbatim>\<open>handleMoveTask\<close> returns
  the previous columns object.
\<close>

theorem move_of_absent_task_changes_nothing:
  assumes "\<forall>ts. getProp (boardOf p s) c = Own ts \<longrightarrow> i \<notin> task_id ` set ts"
  shows "fst (moveTaskInProject p i c c' s) =
           (if getProp (boardOf p s) c = Inherited then Threw TypeError else Returned) \<and>
         snd (moveTaskInProject p i c c' s) = snd (getProjectData p s) \<and>
         (\<forall>q. boardOf q (snd (moveTaskInProject p i c c' s)) = boardOf q s) \<and>
         (p \<in> fst ` set s \<longrightarrow> snd (moveTaskInProject p i c c' s) = s) \<and>
         (\<forall>ts. getProp prev c = Own ts \<and> i \<notin> task_id ` set ts \<longrightarrow>
            handleMoveTask_updater i c c' prev = Inr prev)"
proof -
  have m: "moveTaskInProject p i c c' s =
      (if getProp (boardOf p s) c = Inherited then Threw TypeError else Returned,
       snd (getProjectData p s))"
    using assms
    by (auto simp: moveTaskInProject_def boardOf_def find_None_ids
        dest!: find_Some_ids split: prod.splits property.splits option.splits)
  have u: "\<forall>ts. getProp prev c = Own ts \<and> i \<notin> task_id ` set ts \<longrightarrow>
            handleMoveTask_updater i c c' prev = Inr prev"
    by (auto simp: handleMoveTask_updater_def find_None_ids dest!: find_Some_ids
        split: option.splits)
  show ?thesis using u by (simp add: m boardOf_get getProjectData_known)
qed

theorem move_of_absent_task_changes_nothing_witness:
  "getProp (boardOf 2 initializeDefaultData) ''IN REVIEW'' = Own (snd (project2 ! 2)) \<and>
   ''PB-9'' \<notin> task_id ` set (snd (project2 ! 2)) \<and>
   fst (moveTaskInProject 2 ''PB-9'' ''IN REVIEW'' ''TO DO'' initializeDefaultData) = Returned \<and>
   snd (moveTaskInProject 2 ''PB-9'' ''IN REVIEW'' ''TO DO'' initializeDefaultData)
     = initializeDefaultData"
proof -
  have g: "getProp (boardOf 2 initializeDefaultData) ''IN REVIEW'' = Own (snd (project2 ! 2))"
    by (simp add: boardOf_def getProjectData_def initializeDefaultData_def project2_def
        getProp_def)
  have n: "''PB-9'' \<notin> task_id ` set (snd (project2 ! 2))"
    by (simp add: project2_def)
  have h: "\<forall>ts. getProp (boardOf 2 initializeDefaultData) ''IN REVIEW'' = Own ts
             \<longrightarrow> ''PB-9'' \<notin> task_id ` set ts"
    using g n by simp
  have k: "(2::int) \<in> fst ` set initializeDefaultData"
    by (simp add: initializeDefaultData_def)
  note r = move_of_absent_task_changes_nothing[OF h, of "''TO DO''"]
  from r have a: "fst (moveTaskInProject 2 ''PB-9'' ''IN REVIEW'' ''TO DO'' initializeDefaultData) =
      (if getProp (boardOf 2 initializeDefaultData) ''IN REVIEW'' = Inherited
       then Threw TypeError else Returned)"
    by blast
  from r k have b: "snd (moveTaskInProject 2 ''PB-9'' ''IN REVIEW'' ''TO DO'' initializeDefaultData)
      = initializeDefaultData"
    by blast
  from a g have c: "fst (moveTaskInProject 2 ''PB-9'' ''IN REVIEW'' ''TO DO'' initializeDefaultData)
      = Returned"
    by simp
  from g n b c show ?thesis by blast
qed

text \<open>
  The specification asks for a failure with \<^verbatim>\<open>NotFoundError\<close>. Task PA-1 of the default
  data is in TO DO, not in DONE; moving it out of DONE returns normally.
\<close>

theorem move_of_absent_task_raises_nothing:
  "''PA-1'' \<notin> task_id ` set (snd (project1 ! 3)) \<and>
   getProp (boardOf 1 initializeDefaultData) ''DONE'' = Own (snd (project1 ! 3)) \<and>
   fst (moveTaskInProject 1 ''PA-1'' ''DONE'' ''TO DO'' initializeDefaultData) = Returned \<and>
   \<not> (\<exists>e. fst (moveTaskInProject 1 ''PA-1'' ''DONE'' ''TO DO'' initializeDefaultData) = Threw e)"
  by (simp add: moveTaskInProject_def boardOf_def getProjectData_def initializeDefaultData_def
        project1_def getProp_def)


subsection \<open>Moving a task between columns\<close>

lemma occurrences_Cons:
  "occurrences (x # b) i = length (filter (\<lambda>t. task_id t = i) (snd x)) + occurrences b i"
  by (simp add: occurrences_def)

lemma occurrences_Nil: "occurrences [] i = 0"
  by (simp add: occurrences_def)

lemma holders_Cons:
  "holders (x # b) i = (if i \<in> task_id ` set (snd x) then fst x # holders b i else holders b i)"
  by (cases x) (simp add: holders_def)

lemma holders_Nil: "holders [] i = []"
  by (simp add: holders_def)

lemma filter_ids_empty: "filter (\<lambda>t. task_id t = i) ts = [] \<longleftrightarrow> i \<notin> task_id ` set ts"
  by (auto simp: filter_empty_conv)

lemma occurrences_update:
  "map_of b k = Some old \<Longrightarrow>
     occurrences (AList.update k new b) i + length (filter (\<lambda>t. task_id t = i) old)
       = occurrences b i + length (filter (\<lambda>t. task_id t = i) new)"
  by (induction b) (auto simp: occurrences_Cons split: if_splits)

lemma occurrences_zero_holders: "occurrences b i = 0 \<Longrightarrow> holders b i = []"
  by (induction b) (auto simp: occurrences_Cons holders_Cons holders_Nil filter_ids_empty)

lemma occurrences_member:
  "(c, ts) \<in> set b \<Longrightarrow> i \<in> task_id ` set ts \<Longrightarrow> 0 < occurrences b i"
  by (induction b) (auto simp: occurrences_Cons filter_ids_empty)

lemma holders_single:
  "(c, ts) \<in> set b \<Longrightarrow> i \<in> task_id ` set ts \<Longrightarrow> occurrences b i = 1 \<Longrightarrow> holders b i = [c]"
proof (induction b)
  case Nil
  then show ?case by simp
next
  case (Cons x b)
  show ?case
  proof (cases "x = (c, ts)")
    case True
    have pos: "0 < length (filter (\<lambda>t. task_id t = i) ts)"
      using Cons.prems(2) by (simp add: filter_ids_empty)
    have eq: "length (filter (\<lambda>t. task_id t = i) ts) + occurrences b i = 1"
      using Cons.prems(3) True by (simp add: occurrences_Cons)
    from pos eq have "occurrences b i = 0" by linarith
    then have "holders b i = []" by (rule occurrences_zero_holders)
    with True Cons.prems(2) show ?thesis by (simp add: holders_Cons)
  next
    case False
    with Cons.prems(1) have mem: "(c, ts) \<in> set b" by simp
    then have pos: "0 < occurrences b i" using Cons.prems(2) by (rule occurrences_member)
    have eq: "length (filter (\<lambda>t. task_id t = i) (snd x)) + occurrences b i = 1"
      using Cons.prems(3) by (simp add: occurrences_Cons)
    from pos eq have z: "length (filter (\<lambda>t. task_id t = i) (snd x)) = 0" by linarith
    from pos eq have one: "occurrences b i = 1" by linarith
    from z have "i \<notin> task_id ` set (snd x)" by (simp add: filter_ids_empty)
    with Cons.IH[OF mem Cons.prems(2) one] show ?thesis by (simp add: holders_Cons)
  qed
qed

lemma holders_update:
  "map_of b k = Some old \<Longrightarrow> (j \<in> task_id ` set new \<longleftrightarrow> j \<in> task_id ` set old) \<Longrightarrow>
     holders (AList.update k new b) j = holders b j"
  by (induction b) (auto simp: holders_Cons split: if_splits)

lemma update_member: "map_of b k = Some old \<Longrightarrow> (k, v) \<in> set (AList.update k v b)"
  by (rule map_of_SomeD) (simp add: update_conv')

lemma moveTaskInProject_found:
  assumes "getProp (boardOf p s) c = Own ts"
      and "find (\<lambda>t. task_id t = i) ts = Some task"
      and "getProp (boardOf p s) c' = Own us"
  shows "moveTaskInProject p i c c' s =
           (Returned,
            AList.update p
              (AList.update c'
                 ((if c' = c then filter (\<lambda>t. task_id t \<noteq> i) ts else us) @ [task])
                 (AList.update c (filter (\<lambda>t. task_id t \<noteq> i) ts) (boardOf p s)))
              (snd (getProjectData p s)))"
  using assms
  by (auto simp: moveTaskInProject_def updateProjectData_def boardOf_def getProp_update Let_def
      split: prod.splits)


lemma filter_other_id:
  "j \<noteq> i \<Longrightarrow> filter (\<lambda>t. task_id t = j) (filter (\<lambda>t. task_id t \<noteq> i) ts)
     = filter (\<lambda>t. task_id t = j) ts"
  by (induction ts) auto

lemma ids_filter_other:
  "j \<noteq> i \<Longrightarrow> j \<in> task_id ` set (filter (\<lambda>t. task_id t \<noteq> i) ts) \<longleftrightarrow> j \<in> task_id ` set ts"
  by auto

lemma filter_same_id: "filter (\<lambda>t. task_id t = i) (filter (\<lambda>t. task_id t \<noteq> i) ts) = []"
  by (induction ts) auto

text \<open>
  C1, as the code has it. The store does not check task ids, so the property is stated for a
  board on which the id occurs exactly once. If that occurrence is in \<^verbatim>\<open>fromColumn\<close> and
  \<^verbatim>\<open>toColumn\<close> is a column of the board, then \<^verbatim>\<open>moveTaskInProject\<close> returns, and the task is
  in exactly one column before (\<^verbatim>\<open>fromColumn\<close>) and in exactly one column after
  (\<^verbatim>\<open>toColumn\<close>, at its end), still occurring once on the board. Every other task keeps its
  columns and its number of occurrences, the other columns and the other projects are
  unchanged.
\<close>

theorem move_keeps_single_owner:
  assumes own: "getProp (boardOf p s) c = Own ts"
      and found: "find (\<lambda>t. task_id t = i) ts = Some task"
      and once: "occurrences (boardOf p s) i = 1"
      and target: "getProp (boardOf p s) c' = Own us"
  shows "fst (moveTaskInProject p i c c' s) = Returned \<and>
         holders (boardOf p s) i = [c] \<and>
         holders (boardOf p (snd (moveTaskInProject p i c c' s))) i = [c'] \<and>
         occurrences (boardOf p (snd (moveTaskInProject p i c c' s))) i = 1 \<and>
         (\<forall>j. j \<noteq> i \<longrightarrow>
            holders (boardOf p (snd (moveTaskInProject p i c c' s))) j = holders (boardOf p s) j \<and>
            occurrences (boardOf p (snd (moveTaskInProject p i c c' s))) j
              = occurrences (boardOf p s) j) \<and>
         (c' \<noteq> c \<longrightarrow>
            getProp (boardOf p (snd (moveTaskInProject p i c c' s))) c
              = Own (filter (\<lambda>t. task_id t \<noteq> i) ts) \<and>
            getProp (boardOf p (snd (moveTaskInProject p i c c' s))) c' = Own (us @ [task])) \<and>
         (c' = c \<longrightarrow>
            getProp (boardOf p (snd (moveTaskInProject p i c c' s))) c
              = Own (filter (\<lambda>t. task_id t \<noteq> i) ts @ [task])) \<and>
         (\<forall>d. d \<noteq> c \<and> d \<noteq> c' \<longrightarrow>
            getProp (boardOf p (snd (moveTaskInProject p i c c' s))) d = getProp (boardOf p s) d) \<and>
         (\<forall>q. q \<noteq> p \<longrightarrow> boardOf q (snd (moveTaskInProject p i c c' s)) = boardOf q s)"
proof -
  define b where "b = boardOf p s"
  define rest where "rest = filter (\<lambda>t. task_id t \<noteq> i) ts"
  define us' where "us' = (if c' = c then rest else us)"
  define b1 where "b1 = AList.update c rest b"
  define b' where "b' = AList.update c' (us' @ [task]) b1"
  have mv: "moveTaskInProject p i c c' s = (Returned, AList.update p b' (snd (getProjectData p s)))"
    unfolding b'_def b1_def us'_def rest_def b_def
    using own found target by (rule moveTaskInProject_found)
  have after: "boardOf p (snd (moveTaskInProject p i c c' s)) = b'"
    by (simp add: mv boardOf_update)
  have others: "\<forall>q. q \<noteq> p \<longrightarrow> boardOf q (snd (moveTaskInProject p i c c' s)) = boardOf q s"
    by (simp add: mv boardOf_update boardOf_get)
  have task: "task \<in> set ts" "task_id task = i"
    using find_Some_ids[OF found] by simp_all
  have in_ts: "i \<in> task_id ` set ts" using task by force
  have m0: "map_of b c = Some ts" using own by (simp add: b_def getProp_Own)
  have m0': "map_of b c' = Some us" using target by (simp add: b_def getProp_Own)
  have m1: "map_of b1 c' = Some us'"
    using m0' by (simp add: b1_def us'_def update_conv')
  have before: "holders b i = [c]"
    using map_of_SomeD[OF m0] in_ts once by (simp add: holders_single b_def)
  have pos: "0 < length (filter (\<lambda>t. task_id t = i) ts)"
    using in_ts by (simp add: filter_ids_empty)
  have e1: "occurrences b1 i + length (filter (\<lambda>t. task_id t = i) ts)
      = occurrences b i + length (filter (\<lambda>t. task_id t = i) rest)"
    unfolding b1_def using m0 by (rule occurrences_update)
  have z: "length (filter (\<lambda>t. task_id t = i) rest) = 0"
    unfolding rest_def by (simp only: filter_same_id list.size)
  have o: "occurrences b i = 1" using once by (simp add: b_def)
  from e1 z o pos have gone: "occurrences b1 i = 0" by linarith
  have e2: "occurrences b' i + length (filter (\<lambda>t. task_id t = i) us')
      = occurrences b1 i + length (filter (\<lambda>t. task_id t = i) (us' @ [task]))"
    unfolding b'_def using m1 by (rule occurrences_update)
  have l: "length (filter (\<lambda>t. task_id t = i) (us' @ [task]))
      = length (filter (\<lambda>t. task_id t = i) us') + 1"
    using task by simp
  from e2 l gone have once': "occurrences b' i = 1" by linarith
  have mem': "(c', us' @ [task]) \<in> set b'"
    unfolding b'_def using m1 by (rule update_member)
  have in': "i \<in> task_id ` set (us' @ [task])" using task by force
  have holds': "holders b' i = [c']"
    using mem' in' once' by (rule holders_single)
  have rest_other: "\<forall>j. j \<noteq> i \<longrightarrow> holders b' j = holders b j \<and> occurrences b' j = occurrences b j"
  proof (intro allI impI)
    fix j assume ji: "j \<noteq> i"
    have h1: "holders b1 j = holders b j"
      unfolding b1_def using m0 by (rule holders_update) (use ji in \<open>auto simp: rest_def\<close>)
    have h2: "holders b' j = holders b1 j"
      unfolding b'_def using m1 by (rule holders_update) (use ji task in auto)
    have f1: "occurrences b1 j + length (filter (\<lambda>t. task_id t = j) ts)
      = occurrences b j + length (filter (\<lambda>t. task_id t = j) rest)"
      unfolding b1_def using m0 by (rule occurrences_update)
    have f2: "occurrences b' j + length (filter (\<lambda>t. task_id t = j) us')
      = occurrences b1 j + length (filter (\<lambda>t. task_id t = j) (us' @ [task]))"
      unfolding b'_def using m1 by (rule occurrences_update)
    have r1: "length (filter (\<lambda>t. task_id t = j) rest) = length (filter (\<lambda>t. task_id t = j) ts)"
      unfolding rest_def by (simp only: filter_other_id[OF ji])
    have r2: "length (filter (\<lambda>t. task_id t = j) (us' @ [task]))
      = length (filter (\<lambda>t. task_id t = j) us')"
      using ji task by simp
    from f1 f2 r1 r2 have "occurrences b' j = occurrences b j" by linarith
    with h1 h2 show "holders b' j = holders b j \<and> occurrences b' j = occurrences b j" by simp
  qed
  have cols_ne: "c' \<noteq> c \<longrightarrow> getProp b' c = Own rest \<and> getProp b' c' = Own (us @ [task])"
    by (simp add: b'_def b1_def us'_def getProp_update)
  have cols_eq: "c' = c \<longrightarrow> getProp b' c = Own (rest @ [task])"
    by (simp add: b'_def b1_def us'_def getProp_update)
  have cols_other: "\<forall>d. d \<noteq> c \<and> d \<noteq> c' \<longrightarrow> getProp b' d = getProp b d"
    by (simp add: b'_def b1_def getProp_update)
  have ret: "fst (moveTaskInProject p i c c' s) = Returned" by (simp add: mv)
  from ret before holds' once' rest_other cols_ne cols_eq cols_other others
  show ?thesis unfolding after unfolding b_def rest_def by blast
qed

theorem move_keeps_single_owner_witness:
  "getProp (boardOf 1 initializeDefaultData) ''TO DO'' = Own (snd (project1 ! 0)) \<and>
   find (\<lambda>t. task_id t = ''PA-1'') (snd (project1 ! 0)) = Some (hd (snd (project1 ! 0))) \<and>
   occurrences (boardOf 1 initializeDefaultData) ''PA-1'' = 1 \<and>
   getProp (boardOf 1 initializeDefaultData) ''DONE'' = Own (snd (project1 ! 3)) \<and>
   holders (boardOf 1 initializeDefaultData) ''PA-1'' = [''TO DO''] \<and>
   holders (boardOf 1 (snd (moveTaskInProject 1 ''PA-1'' ''TO DO'' ''DONE'' initializeDefaultData)))
     ''PA-1'' = [''DONE'']"
proof -
  have b: "boardOf 1 initializeDefaultData = project1"
    by (simp add: boardOf_def getProjectData_def initializeDefaultData_def)
  have h1: "getProp (boardOf 1 initializeDefaultData) ''TO DO'' = Own (snd (project1 ! 0))"
    unfolding b by (simp add: project1_def getProp_def)
  have h2: "find (\<lambda>t. task_id t = ''PA-1'') (snd (project1 ! 0)) = Some (hd (snd (project1 ! 0)))"
    by (simp add: project1_def)
  have h3: "occurrences (boardOf 1 initializeDefaultData) ''PA-1'' = 1"
    unfolding b by (simp add: project1_def occurrences_def)
  have h4: "getProp (boardOf 1 initializeDefaultData) ''DONE'' = Own (snd (project1 ! 3))"
    unfolding b by (simp add: project1_def getProp_def)
  from move_keeps_single_owner[OF h1 h2 h3 h4] h1 h2 h3 h4 show ?thesis by blast
qed

text \<open>
  The specification speaks of every reachable state. Adding the task PA-1 of the
  default data to DONE as well is an operation of the store, and it is accepted: the task
  is then in two columns, before a move and after it.
\<close>

theorem task_in_two_columns_reachable:
  "reachable (snd (addTaskToProject 1 ''DONE'' (hd (snd (project1 ! 0))) initializeDefaultData)) \<and>
   holders (boardOf 1
      (snd (addTaskToProject 1 ''DONE'' (hd (snd (project1 ! 0))) initializeDefaultData)))
     ''PA-1'' = [''TO DO'', ''DONE''] \<and>
   fst (moveTaskInProject 1 ''PA-1'' ''TO DO'' ''IN PROGRESS''
      (snd (addTaskToProject 1 ''DONE'' (hd (snd (project1 ! 0))) initializeDefaultData)))
     = Returned \<and>
   holders (boardOf 1 (snd (moveTaskInProject 1 ''PA-1'' ''TO DO'' ''IN PROGRESS''
      (snd (addTaskToProject 1 ''DONE'' (hd (snd (project1 ! 0))) initializeDefaultData)))))
     ''PA-1'' = [''IN PROGRESS'', ''DONE'']"
proof -
  have r: "reachable (snd (addTaskToProject 1 ''DONE'' (hd (snd (project1 ! 0)))
      initializeDefaultData))"
    by (rule reach_add[OF reach_init])
  have e: "holders (boardOf 1
      (snd (addTaskToProject 1 ''DONE'' (hd (snd (project1 ! 0))) initializeDefaultData)))
     ''PA-1'' = [''TO DO'', ''DONE'']"
    by (simp add: addTaskToProject_def updateProjectData_def boardOf_def getProjectData_def
        initializeDefaultData_def project1_def getProp_def holders_def)
  have m: "fst (moveTaskInProject 1 ''PA-1'' ''TO DO'' ''IN PROGRESS''
      (snd (addTaskToProject 1 ''DONE'' (hd (snd (project1 ! 0))) initializeDefaultData)))
     = Returned"
    by (simp add: moveTaskInProject_def addTaskToProject_def updateProjectData_def
        getProjectData_def initializeDefaultData_def project1_def getProp_def)
  have h: "holders (boardOf 1 (snd (moveTaskInProject 1 ''PA-1'' ''TO DO'' ''IN PROGRESS''
      (snd (addTaskToProject 1 ''DONE'' (hd (snd (project1 ! 0))) initializeDefaultData)))))
     ''PA-1'' = [''IN PROGRESS'', ''DONE'']"
    by (simp add: moveTaskInProject_def addTaskToProject_def updateProjectData_def boardOf_def
        getProjectData_def initializeDefaultData_def project1_def getProp_def holders_def)
  from r e m h show ?thesis by blast
qed

text \<open>
  A move to a name that is no column of the board is not covered by the statement above:
  the task has left its column when \<^verbatim>\<open>push\<close> throws, and it is in no column afterwards.
\<close>

lemma move_to_unknown_column_loses_task:
  "fst (moveTaskInProject 1 ''PA-1'' ''TO DO'' ''ARCHIVE'' initializeDefaultData) = Threw TypeError \<and>
   holders (boardOf 1 (snd (moveTaskInProject 1 ''PA-1'' ''TO DO'' ''ARCHIVE'' initializeDefaultData)))
     ''PA-1'' = []"
  by (simp add: moveTaskInProject_def boardOf_def getProjectData_def initializeDefaultData_def
      project1_def getProp_def objectPrototypeKeys_def holders_def)


section \<open>Properties of the board component\<close>

subsection \<open>The page before the first submission\<close>

lemma newBoard4:
  "newBoard [(c1, t1), (c2, t2), (c3, t3), (c4, t4)] m =
     (freshRef m + 4,
      m\<lparr>arrays := arrays m @ [(freshRef m, t1), (freshRef m + 1, t2), (freshRef m + 2, t3),
                                (freshRef m + 3, t4)],
        objects := objects m @
          [(freshRef m + 4, [(c1, freshRef m), (c2, freshRef m + 1), (c3, freshRef m + 2),
                             (c4, freshRef m + 3)])],
        freshRef := freshRef m + 5\<rparr>)"
  by (simp add: newBoard_def newArray_def newObject_def)

lemma project1_columns:
  "project1 = [(''TO DO'', snd (project1 ! 0)), (''IN PROGRESS'', snd (project1 ! 1)),
               (''IN REVIEW'', snd (project1 ! 2)), (''DONE'', snd (project1 ! 3))]"
  by (simp add: project1_def)

lemma project2_columns:
  "project2 = [(''TO DO'', snd (project2 ! 0)), (''IN PROGRESS'', snd (project2 ! 1)),
               (''IN REVIEW'', snd (project2 ! 2)), (''DONE'', snd (project2 ! 3))]"
  by (simp add: project2_def)

lemma project3_columns:
  "project3 = [(''TO DO'', snd (project3 ! 0)), (''IN PROGRESS'', snd (project3 ! 1)),
               (''IN REVIEW'', snd (project3 ! 2)), (''DONE'', snd (project3 ! 3))]"
  by (simp add: project3_def)

lemma setProject4:
  "setProject p [(c1, t1), (c2, t2), (c3, t3), (c4, t4)] st =
     st\<lparr>heap := (heap st)\<lparr>arrays := arrays (heap st) @
                      [(freshRef (heap st), t1), (freshRef (heap st) + 1, t2),
                       (freshRef (heap st) + 2, t3), (freshRef (heap st) + 3, t4)],
                    objects := objects (heap st) @
                      [(freshRef (heap st) + 4,
                        [(c1, freshRef (heap st)), (c2, freshRef (heap st) + 1),
                         (c3, freshRef (heap st) + 2), (c4, freshRef (heap st) + 3)])],
                    freshRef := freshRef (heap st) + 5\<rparr>,
        projectsData := AList.update p (freshRef (heap st) + 4) (projectsData st)\<rparr>"
  by (simp add: setProject_def newBoard4)

lemma projectDataService_eq:
  "projectDataService =
     \<lparr>heap = \<lparr>arrays = [(0, snd (project1 ! 0)), (1, snd (project1 ! 1)), (2, snd (project1 ! 2)),
                          (3, snd (project1 ! 3)),
                          (5, snd (project2 ! 0)), (6, snd (project2 ! 1)), (7, snd (project2 ! 2)),
                          (8, snd (project2 ! 3)),
                          (10, snd (project3 ! 0)), (11, snd (project3 ! 1)), (12, snd (project3 ! 2)),
                          (13, snd (project3 ! 3))],
               objects = [(4, [(''TO DO'', 0), (''IN PROGRESS'', 1), (''IN REVIEW'', 2), (''DONE'', 3)]),
                          (9, [(''TO DO'', 5), (''IN PROGRESS'', 6), (''IN REVIEW'', 7), (''DONE'', 8)]),
                          (14, [(''TO DO'', 10), (''IN PROGRESS'', 11), (''IN REVIEW'', 12),
                                (''DONE'', 13)])],
               freshRef = 15\<rparr>,
      projectsData = [(1, 4), (2, 9), (3, 14)]\<rparr>"
proof -
  have "projectDataService =
      setProject 3 [(''TO DO'', snd (project3 ! 0)), (''IN PROGRESS'', snd (project3 ! 1)),
               (''IN REVIEW'', snd (project3 ! 2)), (''DONE'', snd (project3 ! 3))]
       (setProject 2 [(''TO DO'', snd (project2 ! 0)), (''IN PROGRESS'', snd (project2 ! 1)),
               (''IN REVIEW'', snd (project2 ! 2)), (''DONE'', snd (project2 ! 3))]
         (setProject 1 [(''TO DO'', snd (project1 ! 0)), (''IN PROGRESS'', snd (project1 ! 1)),
               (''IN REVIEW'', snd (project1 ! 2)), (''DONE'', snd (project1 ! 3))]
       \<lparr>heap = \<lparr>arrays = [], objects = [], freshRef = 0\<rparr>, projectsData = []\<rparr>))"
    unfolding projectDataService_def
    using project1_columns project2_columns project3_columns by simp
  then show ?thesis
    unfolding setProject4 by (simp del: One_nat_def add_2_eq_Suc add_2_eq_Suc')
qed


subsection \<open>Three tasks created in one column\<close>

lemma example_ids:
  "showNat 1762170000000 = ''1762170000000''"
  "showNat 1762170004512 = ''1762170004512''"
  "showNat 1762170009377 = ''1762170009377''"
  "showInt 4 = ''4''"
  by (simp_all add: showInt_def showNat.simps digitChar_def)



subsection \<open>The first task created on a board that is the store's object\<close>

lemma map_of_append_fresh: "k \<notin> fst ` set xs \<Longrightarrow> map_of (xs @ [(k, v)]) k = Some v"
  by (induction xs) auto

lemma map_of_append_found: "map_of xs k = Some v \<Longrightarrow> map_of (xs @ ys) k = Some v"
  by (induction xs) auto

lemma arrayAt_found:
  "map_of (arrays m) a = Some ts \<Longrightarrow> arrays m' = arrays m @ ys \<Longrightarrow> arrayAt m' a = ts"
  using map_of_append_found[of "arrays m" a ts ys] by (simp add: arrayAt_def del: map_of_append)

lemma arrayAt_fresh:
  "k \<notin> fst ` set (arrays m) \<Longrightarrow> arrays m' = arrays m @ [(k, v)] \<Longrightarrow> arrayAt m' k = v"
  using map_of_append_fresh[of k "arrays m" v] by (simp add: arrayAt_def del: map_of_append)

lemma propertiesOf_found:
  "map_of (objects m) r = Some props \<Longrightarrow> objects m' = objects m @ ys \<Longrightarrow>
   propertiesOf m' r = props"
  using map_of_append_found[of "objects m" r props ys]
  by (simp add: propertiesOf_def del: map_of_append)

lemma propertiesOf_fresh:
  "k \<notin> fst ` set (objects m) \<Longrightarrow> objects m' = objects m @ [(k, v)] \<Longrightarrow>
   propertiesOf m' k = v"
  using map_of_append_fresh[of k "objects m" v] by (simp add: propertiesOf_def del: map_of_append)

lemma update_keys_present:
  "k \<in> fst ` set al \<Longrightarrow> fst ` set (AList.update k v al) = fst ` set al"
  by (induction al) auto

lemma map_of_boardAt:
  "map_of (boardAt m r) c = map_option (arrayAt m) (map_of (propertiesOf m r) c)"
  unfolding boardAt_def by (induction "propertiesOf m r") (auto simp: map_of_map)

text \<open>
  While the component's state is the object the store holds for the project, a task
  created through \<^verbatim>\<open>handleAddTaskInline\<close> in one of its columns is in the store once
  and on the board twice after the next render.
\<close>

lemma first_submission_on_stored_object:
  assumes q: "queue st = []"
    and al: "map_of (projectsData st) p = Some (columns st)"
    and ob: "map_of (objects (heap st)) (columns st) = Some props"
    and co: "map_of props c = Some a"
    and ar: "map_of (arrays (heap st)) a = Some old"
    and fr: "\<forall>r \<in> fst ` set (arrays (heap st)) \<union> fst ` set (objects (heap st)).
               r < freshRef (heap st)"
  shows "fst (handleAddTaskInline p c newTask dateNow st) = Returned \<and>
         fst (render (snd (handleAddTaskInline p c newTask dateNow st))) = Returned \<and>
         getProp (shownBoard (snd (render (snd (handleAddTaskInline p c newTask dateNow st))))) c =
           Own (old @ [newTask\<lparr>task_id := ''P'' @ showInt p @ ''-'' @ showNat dateNow\<rparr>,
                       newTask\<lparr>task_id := ''P'' @ showInt p @ ''-'' @ showNat dateNow\<rparr>]) \<and>
         getProp (storedBoard p (snd (render (snd (handleAddTaskInline p c newTask dateNow st))))) c =
           Own (old @ [newTask\<lparr>task_id := ''P'' @ showInt p @ ''-'' @ showNat dateNow\<rparr>])"
proof -
  define t where "t = newTask\<lparr>task_id := ''P'' @ showInt p @ ''-'' @ showNat dateNow\<rparr>"
  let ?m1 = "push a t (heap st)"
  let ?st1 = "st\<lparr>heap := ?m1, projectsData := AList.update p (columns st) (projectsData st),
                queue := [AddTaskUpdater c t]\<rparr>"
  have pr: "propertiesOf (heap st) (columns st) = props" by (simp add: propertiesOf_def ob)
  have h: "handleAddTaskInline p c newTask dateNow st = (Returned, ?st1)"
    unfolding handleAddTaskInline_def Let_def t_def[symmetric]
    by (simp add: addTaskToProject_ref_def getProjectData_ref_def
        setColumns_def al pr co updateProjectData_ref_def q)
  have a1: "arrayAt ?m1 a = old @ [t]"
    by (simp add: arrayAt_def push_def update_conv' ar)
  have p1: "propertiesOf ?m1 (columns st) = props"
    by (simp add: propertiesOf_def push_def ob)
  have keys: "fst ` set (arrays ?m1) = fst ` set (arrays (heap st))"
  proof -
    from ar have "(a, old) \<in> set (arrays (heap st))" by (rule map_of_SomeD)
    then have "a \<in> fst ` set (arrays (heap st))" by force
    then show ?thesis
      by (simp add: push_def update_keys_present)
  qed
  have f1: "freshRef ?m1 = freshRef (heap st)" "objects ?m1 = objects (heap st)"
    by (simp_all add: push_def)
  define a' where "a' = freshRef (heap st)"
  define r where "r = freshRef (heap st) + 1"
  define m2 where "m2 = ?m1\<lparr>arrays := arrays ?m1 @ [(a', old @ [t, t])],
                 objects := objects ?m1 @ [(r, AList.update c a' props)],
                 freshRef := freshRef (heap st) + 2\<rparr>"
  define st2 where "st2 = ?st1\<lparr>heap := m2, columns := r, queue := []\<rparr>"
  have u: "applyUpdate (AddTaskUpdater c t) (columns st) ?m1 = (Inr r, m2)"
    by (simp add: p1 co a1 newArray_def newObject_def f1 a'_def r_def m2_def)
  have rn: "render ?st1 = (Returned, st2)"
    unfolding render_def using u by (simp add: st2_def)
  have hs: "heap st2 = m2" "columns st2 = r"
    "projectsData st2 = AList.update p (columns st) (projectsData st)"
    by (simp_all add: st2_def)
  have am: "arrays m2 = arrays ?m1 @ [(a', old @ [t, t])]"
    "objects m2 = objects (heap st) @ [(r, AList.update c a' props)]"
    by (simp_all add: m2_def f1)
  have na: "a' \<notin> fst ` set (arrays ?m1)"
  proof
    assume "a' \<in> fst ` set (arrays ?m1)"
    with keys have "a' \<in> fst ` set (arrays (heap st))" by simp
    with fr have "a' < freshRef (heap st)" by blast
    then show False by (simp add: a'_def)
  qed
  have nr: "r \<notin> fst ` set (objects (heap st))"
  proof
    assume "r \<in> fst ` set (objects (heap st))"
    with fr have "r < freshRef (heap st)" by blast
    then show False by (simp add: r_def)
  qed
  have a2: "arrayAt m2 a' = old @ [t, t]"
    by (rule arrayAt_fresh[OF na am(1)])
  have a0: "map_of (arrays ?m1) a = Some (old @ [t])"
    by (simp add: push_def update_conv' arrayAt_def ar)
  have a3: "arrayAt m2 a = old @ [t]"
    by (rule arrayAt_found[OF a0 am(1)])
  have p2: "propertiesOf m2 r = AList.update c a' props"
    by (rule propertiesOf_fresh[OF nr am(2)])
  have p3: "propertiesOf m2 (columns st) = props"
    by (rule propertiesOf_found[OF ob am(2)])
  have shown: "getProp (shownBoard st2) c = Own (old @ [t, t])"
    by (simp add: getProp_def shownBoard_def hs map_of_boardAt p2 update_conv' a2)
  have stored: "getProp (storedBoard p st2) c = Own (old @ [t])"
    by (simp add: getProp_def storedBoard_def hs update_conv' map_of_boardAt p3 co a3)
  show ?thesis unfolding t_def[symmetric] h by (simp add: rn shown stored)
qed


text \<open>Every board is in this state once it is mounted, whatever its project.\<close>

lemma mounted_board_is_stored_object:
  "queue (boardMounted p) = [] \<and>
   map_of (projectsData (boardMounted p)) p = Some (columns (boardMounted p))"
  unfolding boardMounted_def mountBoard_def loadProject_def getProjectData_ref_def emptyBoard_def
    newBoard4 projectDataService_eq
  by (simp add: newObject_def setColumns_def render_def update_conv'
      del: One_nat_def add_2_eq_Suc add_2_eq_Suc')

lemma boardMounted_1:
  "boardMounted 1 =
     \<lparr>heap = \<lparr>arrays = arrays (heap projectDataService),
               objects = objects (heap projectDataService) @ [(15, [])],
               freshRef = 16\<rparr>,
      projectsData = [(1, 4), (2, 9), (3, 14)], columns = 4, queue = []\<rparr>"
  unfolding boardMounted_def mountBoard_def loadProject_def getProjectData_ref_def
    projectDataService_eq
  by (simp add: newObject_def setColumns_def render_def
      del: One_nat_def add_2_eq_Suc add_2_eq_Suc')

text \<open>
  So on the board of project 1, with the default data, a task created in DONE comes
  after PA-8 and PA-9 twice.
\<close>

lemma default_board_shows_created_task_twice:
  "getProp (shownBoard (snd (render (snd (handleAddTaskInline 1 ''DONE'' (exampleTask ''T1'')
        1762170000000 (boardMounted 1)))))) ''DONE'' =
     Own (snd (project1 ! 3) @ [(exampleTask ''T1'')\<lparr>task_id := ''P1-1762170000000''\<rparr>,
                                (exampleTask ''T1'')\<lparr>task_id := ''P1-1762170000000''\<rparr>]) \<and>
   getProp (storedBoard 1 (snd (render (snd (handleAddTaskInline 1 ''DONE'' (exampleTask ''T1'')
        1762170000000 (boardMounted 1)))))) ''DONE'' =
     Own (snd (project1 ! 3) @ [(exampleTask ''T1'')\<lparr>task_id := ''P1-1762170000000''\<rparr>])"
proof -
  have q: "queue (boardMounted 1) = []" by (simp add: boardMounted_1)
  have al: "map_of (projectsData (boardMounted 1)) 1 = Some (columns (boardMounted 1))"
    by (simp add: boardMounted_1)
  have ob: "map_of (objects (heap (boardMounted 1))) (columns (boardMounted 1)) =
      Some [(''TO DO'', 0), (''IN PROGRESS'', 1), (''IN REVIEW'', 2), (''DONE'', 3)]"
    by (simp add: boardMounted_1 projectDataService_eq)
  have co: "map_of [(''TO DO'', 0), (''IN PROGRESS'', 1), (''IN REVIEW'', 2), (''DONE'', 3)] ''DONE''
      = Some (3::nat)"
    by simp
  have ar: "map_of (arrays (heap (boardMounted 1))) 3 = Some (snd (project1 ! 3))"
    by (simp add: boardMounted_1 projectDataService_eq)
  have fr: "\<forall>r \<in> fst ` set (arrays (heap (boardMounted 1))) \<union>
               fst ` set (objects (heap (boardMounted 1))). r < freshRef (heap (boardMounted 1))"
    by (simp add: boardMounted_1 projectDataService_eq)
  have i: "showInt 1 = ''1''" by (simp add: showInt_def showNat.simps digitChar_def)
  from first_submission_on_stored_object[OF q al ob co ar fr, of "exampleTask ''T1''" 1762170000000]
  show ?thesis by (simp add: i example_ids)
qed


section \<open>Properties of the WebSocket client\<close>

subsection \<open>Notifying listeners\<close>

lemma applyCall_listeners_other:
  "callEvent c \<noteq> event \<Longrightarrow>
     map_of (listeners (applyCall svc c)) event = map_of (listeners svc) event"
  by (cases c)
     (auto simp: applyCall_def callEvent_def subscribe_def unsubscribe_def update_conv'
        split: option.splits)

lemma foldl_applyCall_listeners_other:
  "event \<notin> set (map callEvent calls) \<Longrightarrow>
     map_of (listeners (foldl applyCall svc calls)) event = map_of (listeners svc) event"
  by (induction calls arbitrary: svc) (auto simp: applyCall_listeners_other)

lemma applyCall_keeps:
  "ws (applyCall svc c) = ws svc \<and> url (applyCall svc c) = url svc \<and>
   reconnectAttempts (applyCall svc c) = reconnectAttempts svc \<and>
   maxReconnectAttempts (applyCall svc c) = maxReconnectAttempts svc \<and>
   reconnectInterval (applyCall svc c) = reconnectInterval svc \<and>
   isConnected (applyCall svc c) = isConnected svc \<and>
   onlineUsers (applyCall svc c) = onlineUsers svc"
  by (cases c) (auto simp: applyCall_def subscribe_def unsubscribe_def split: option.splits)

lemma foldl_applyCall_keeps:
  "ws (foldl applyCall svc calls) = ws svc \<and> url (foldl applyCall svc calls) = url svc \<and>
   reconnectAttempts (foldl applyCall svc calls) = reconnectAttempts svc \<and>
   maxReconnectAttempts (foldl applyCall svc calls) = maxReconnectAttempts svc \<and>
   reconnectInterval (foldl applyCall svc calls) = reconnectInterval svc \<and>
   isConnected (foldl applyCall svc calls) = isConnected svc \<and>
   onlineUsers (foldl applyCall svc calls) = onlineUsers svc"
  by (induction calls arbitrary: svc) (simp_all add: applyCall_keeps)

lemma forEachCallback_keeps:
  "ws (fst (forEachCallback n k event d svc e)) = ws svc \<and>
   url (fst (forEachCallback n k event d svc e)) = url svc \<and>
   reconnectAttempts (fst (forEachCallback n k event d svc e)) = reconnectAttempts svc \<and>
   maxReconnectAttempts (fst (forEachCallback n k event d svc e)) = maxReconnectAttempts svc \<and>
   reconnectInterval (fst (forEachCallback n k event d svc e)) = reconnectInterval svc \<and>
   isConnected (fst (forEachCallback n k event d svc e)) = isConnected svc \<and>
   onlineUsers (fst (forEachCallback n k event d svc e)) = onlineUsers svc \<and>
   timers (snd (forEachCallback n k event d svc e)) = timers e \<and>
   now (snd (forEachCallback n k event d svc e)) = now e"
proof (induction n arbitrary: k svc e)
  case 0
  show ?case by simp
next
  case (Suc n)
  show ?case
  proof (cases "map_of (listeners svc) event")
    case None
    then show ?thesis using Suc.IH[of "Suc k" svc e] by simp
  next
    case (Some callbacks)
    show ?thesis
    proof (cases "k < length callbacks")
      case False
      then show ?thesis using Some Suc.IH[of "Suc k" svc e] by simp
    next
      case True
      obtain c w calls where r: "run (callbacks ! k) d (page e) = (c, w, calls)"
        by (cases "run (callbacks ! k) d (page e)") auto
      note f = foldl_applyCall_keeps[of svc calls]
      show ?thesis
      proof (cases c)
        case Returned
        with Some True r f Suc.IH[of "Suc k" "foldl applyCall svc calls" "e\<lparr>page := w\<rparr>"]
        show ?thesis by simp
      next
        case (Threw err)
        with Some True r f
          Suc.IH[of "Suc k" "foldl applyCall svc calls"
            "consoleWrite ERROR ''Error in WebSocket listener:'' (e\<lparr>page := w\<rparr>)"]
        show ?thesis by (simp add: consoleWrite_def)
      qed
    qed
  qed
qed

lemma notifyListeners_keeps:
  "fst (notifyListeners event d svc e) = Returned \<and>
   ws (fst (snd (notifyListeners event d svc e))) = ws svc \<and>
   url (fst (snd (notifyListeners event d svc e))) = url svc \<and>
   reconnectAttempts (fst (snd (notifyListeners event d svc e))) = reconnectAttempts svc \<and>
   maxReconnectAttempts (fst (snd (notifyListeners event d svc e))) = maxReconnectAttempts svc \<and>
   reconnectInterval (fst (snd (notifyListeners event d svc e))) = reconnectInterval svc \<and>
   isConnected (fst (snd (notifyListeners event d svc e))) = isConnected svc \<and>
   onlineUsers (fst (snd (notifyListeners event d svc e))) = onlineUsers svc \<and>
   timers (snd (snd (notifyListeners event d svc e))) = timers e \<and>
   now (snd (snd (notifyListeners event d svc e))) = now e"
proof (cases "map_of (listeners svc) event")
  case None
  then show ?thesis by (simp add: notifyListeners_def)
next
  case (Some callbacks)
  then show ?thesis
    using forEachCallback_keeps[of "length callbacks" 0 event d svc e]
    by (simp add: notifyListeners_def split: prod.splits)
qed

text \<open>
  As long as no callback of the event changes the listeners of this event, the loop
  meets every callback of the array, each once and in the order of the array, whether a
  callback returns or throws.
\<close>

lemma forEachCallback_stable:
  assumes "\<forall>cb \<in> set cbs. leavesAlone event cb"
  shows "map_of (listeners svc) event = Some cbs \<Longrightarrow> k + n = length cbs \<Longrightarrow>
     map_of (listeners (fst (forEachCallback n k event d svc e))) event = Some cbs \<and>
     page (snd (forEachCallback n k event d svc e))
       = foldl (\<lambda>w cb. fst (snd (run cb d w))) (page e) (drop k cbs)"
proof (induction n arbitrary: k svc e)
  case 0
  then show ?case by simp
next
  case (Suc n)
  from Suc.prems have k: "k < length cbs" by simp
  then have d: "drop k cbs = cbs ! k # drop (Suc k) cbs" by (simp add: Cons_nth_drop_Suc)
  obtain c w calls where r: "run (cbs ! k) d (page e) = (c, w, calls)"
    by (cases "run (cbs ! k) d (page e)") auto
  from k assms have "leavesAlone event (cbs ! k)" by simp
  then have "event \<notin> set (map callEvent calls)"
    unfolding leavesAlone_def using r by (metis snd_conv)
  then have m: "map_of (listeners (foldl applyCall svc calls)) event = Some cbs"
    using Suc.prems(1) by (simp add: foldl_applyCall_listeners_other)
  from Suc.prems have l: "Suc k + n = length cbs" by simp
  show ?case
  proof (cases c)
    case Returned
    with Suc.IH[OF m l, of "e\<lparr>page := w\<rparr>"] Suc.prems(1) k r d
    show ?thesis by simp
  next
    case (Threw err)
    with Suc.IH[OF m l, of "consoleWrite ERROR ''Error in WebSocket listener:'' (e\<lparr>page := w\<rparr>)"]
      Suc.prems(1) k r d
    show ?thesis by (simp add: consoleWrite_def)
  qed
qed

lemma notify_invokes_all_when_listeners_stable:
  assumes "\<forall>cb \<in> set (callbacksFor svc event). leavesAlone event cb"
  shows "fst (notifyListeners event d svc e) = Returned \<and>
         callbacksFor (fst (snd (notifyListeners event d svc e))) event = callbacksFor svc event \<and>
         page (snd (snd (notifyListeners event d svc e)))
           = foldl (\<lambda>w cb. fst (snd (run cb d w))) (page e) (callbacksFor svc event)"
proof (cases "map_of (listeners svc) event")
  case None
  then show ?thesis by (simp add: notifyListeners_def callbacksFor_def)
next
  case (Some cbs)
  then have c: "callbacksFor svc event = cbs" by (simp add: callbacksFor_def)
  from assms have a: "\<forall>cb \<in> set cbs. leavesAlone event cb" by (simp add: c)
  from forEachCallback_stable[OF a Some, of 0 "length cbs" d e]
  show ?thesis
    using Some by (simp add: notifyListeners_def c callbacksFor_def split: prod.splits)
qed

lemma callbacksFor_subscribe:
  "callbacksFor (subscribe event cb svc) event' =
     (if event' = event then callbacksFor svc event @ [cb] else callbacksFor svc event')"
  by (simp add: callbacksFor_def subscribe_def update_conv' split: option.splits)

lemma ident_recorder: "ident (recorder n) = n"
  by (simp add: recorder_def)

lemma ident_thrower: "ident (thrower n) = n"
  by (simp add: thrower_def)

lemma leavesAlone_recorder: "leavesAlone event (recorder n)"
  by (simp add: leavesAlone_def recorder_def)

lemma leavesAlone_thrower: "leavesAlone event (thrower n)"
  by (simp add: leavesAlone_def thrower_def)

lemma notify_single_recorder:
  assumes "callbacksFor svc event = [recorder k]"
  shows "notifyListeners event d svc e = (Returned, svc, e\<lparr>page := page e @ [(k, d)]\<rparr>)"
proof -
  from assms have m: "map_of (listeners svc) event = Some [recorder k]"
    by (simp add: callbacksFor_def split: option.splits)
  show ?thesis
    by (simp add: notifyListeners_def m recorder_def)
qed

text \<open>
  Three listeners, the second of which throws: all three are called, in the order of
  their registration, and the notification returns.
\<close>

lemma notify_survives_throwing_listener:
  "fst (notifyListeners ''taskMoved'' (Some (JStr ''PA-1''))
     (subscribe ''taskMoved'' (recorder 4)
       (subscribe ''taskMoved'' (thrower 3) (subscribe ''taskMoved'' (recorder 2) (constructor ()))))
     env0) = Returned \<and>
   page (snd (snd (notifyListeners ''taskMoved'' (Some (JStr ''PA-1''))
     (subscribe ''taskMoved'' (recorder 4)
       (subscribe ''taskMoved'' (thrower 3) (subscribe ''taskMoved'' (recorder 2) (constructor ()))))
     env0))) = [(2, Some (JStr ''PA-1'')), (3, Some (JStr ''PA-1'')), (4, Some (JStr ''PA-1''))]"
proof -
  let ?svc = "subscribe ''taskMoved'' (recorder 4)
       (subscribe ''taskMoved'' (thrower 3) (subscribe ''taskMoved'' (recorder 2) (constructor ())))"
  have c: "callbacksFor ?svc ''taskMoved'' = [recorder 2, thrower 3, recorder 4]"
    by (simp add: callbacksFor_subscribe) (simp add: callbacksFor_def constructor_def)
  have a: "\<forall>cb \<in> set (callbacksFor ?svc ''taskMoved''). leavesAlone ''taskMoved'' cb"
    unfolding c by (simp add: leavesAlone_recorder leavesAlone_thrower)
  have p: "page env0 = []" by (simp add: env0_def)
  from notify_invokes_all_when_listeners_stable[OF a, of "Some (JStr ''PA-1'')" env0]
  show ?thesis unfolding c p by (simp add: recorder_def thrower_def)
qed

text \<open>
  C10. \<^verbatim>\<open>notifyListeners\<close> is to invoke every callback registered for the event, in the
  order of registration, whatever the callbacks before it do. A callback that throws is
  indeed no obstacle, as shown above. But the loop runs over the very array that the
  function returned by \<^verbatim>\<open>subscribe\<close> cuts a callback out of. Two listeners are registered
  for \<^verbatim>\<open>boardSync\<close>: first one that wants to be told once and so unsubscribes when it is
  called, then one that writes down what it is given. On the notification the first is
  called; the second has then moved to the index the loop has left behind, and it is not
  called at all, although it is still registered afterwards.
\<close>

theorem notify_skips_listener_after_unsubscribe:
  "callbacksFor
     (subscribe ''boardSync'' (recorder 3)
        (subscribe ''boardSync'' (once ''boardSync'' 2) (constructor ())))
     ''boardSync'' = [once ''boardSync'' 2, recorder 3] \<and>
   fst (notifyListeners ''boardSync'' (Some (JObj []))
     (subscribe ''boardSync'' (recorder 3)
        (subscribe ''boardSync'' (once ''boardSync'' 2) (constructor ())))
     env0) = Returned \<and>
   page (snd (snd (notifyListeners ''boardSync'' (Some (JObj []))
     (subscribe ''boardSync'' (recorder 3)
        (subscribe ''boardSync'' (once ''boardSync'' 2) (constructor ())))
     env0))) = [(2, Some (JObj []))] \<and>
   callbacksFor (fst (snd (notifyListeners ''boardSync'' (Some (JObj []))
     (subscribe ''boardSync'' (recorder 3)
        (subscribe ''boardSync'' (once ''boardSync'' 2) (constructor ())))
     env0))) ''boardSync'' = [recorder 3]"
proof -
  let ?svc = "subscribe ''boardSync'' (recorder 3)
        (subscribe ''boardSync'' (once ''boardSync'' 2) (constructor ()))"
  have l: "listeners ?svc = [(''boardSync'', [once ''boardSync'' 2, recorder 3])]"
    by (simp add: subscribe_def constructor_def)
  have c: "callbacksFor ?svc ''boardSync'' = [once ''boardSync'' 2, recorder 3]"
    by (simp add: callbacksFor_def l)
  have i: "ident (once ''boardSync'' 2) = 2" by (simp add: once_def)
  have r: "run (once ''boardSync'' 2) (Some (JObj [])) [] =
      (Returned, [(2, Some (JObj []))], [Unsubscribe ''boardSync'' 2])"
    by (simp add: once_def)
  have u: "listeners (unsubscribe ''boardSync'' 2 ?svc) = [(''boardSync'', [recorder 3])]"
    by (simp add: unsubscribe_def l i)
  have n: "notifyListeners ''boardSync'' (Some (JObj [])) ?svc env0 =
      (Returned, unsubscribe ''boardSync'' 2 ?svc, env0\<lparr>page := [(2, Some (JObj []))]\<rparr>)"
    by (simp add: notifyListeners_def l r u applyCall_def env0_def)
  have a: "callbacksFor (unsubscribe ''boardSync'' 2 ?svc) ''boardSync'' = [recorder 3]"
    by (simp add: callbacksFor_def u)
  show ?thesis unfolding n by (simp add: c a)
qed


subsection \<open>The printed timestamp\<close>

lemma isDigit_digitChar: "n < 10 \<Longrightarrow> isDigit (digitChar n)"
  unfolding isDigit_def digitChar_def by (rule nth_mem) simp

lemma showNat_digits: "list_all isDigit (showNat n)"
proof (induction n rule: showNat.induct)
  case (1 n)
  show ?case
  proof (cases "n < 10")
    case True
    then show ?thesis by (subst showNat.simps) (simp add: isDigit_digitChar)
  next
    case False
    then have "list_all isDigit (showNat (n div 10))" by (rule "1.IH")
    moreover have "isDigit (digitChar (n mod 10))" by (simp add: isDigit_digitChar)
    ultimately show ?thesis using False by (subst showNat.simps) simp
  qed
qed

lemma length_showNat: "n < 10 ^ Suc w \<Longrightarrow> length (showNat n) \<le> Suc w"
proof (induction w arbitrary: n)
  case 0
  then show ?case by (subst showNat.simps) simp
next
  case (Suc w)
  show ?case
  proof (cases "n < 10")
    case True
    then show ?thesis by (subst showNat.simps) simp
  next
    case False
    from Suc.prems have "n div 10 < 10 ^ Suc w" by (simp add: less_mult_imp_div_less mult.commute)
    then have "length (showNat (n div 10)) \<le> Suc w" by (rule Suc.IH)
    then show ?thesis using False by (subst showNat.simps) simp
  qed
qed

lemma isDigit_zero: "isDigit (CHR ''0'')"
  by (simp add: isDigit_def)

lemma padStart_digits: "list_all isDigit s \<Longrightarrow> list_all isDigit (padStart w s)"
  by (auto simp: padStart_def list_all_iff isDigit_zero)

lemma length_padStart: "length s \<le> w \<Longrightarrow> length (padStart w s) = w"
  by (simp add: padStart_def)


lemma matches_digits:
  "length ds = k \<Longrightarrow> list_all isDigit ds \<Longrightarrow>
     matchesPattern (replicate k (CHR ''9'') @ ps) (ds @ cs) = matchesPattern ps cs"
  by (induction ds arbitrary: k) auto


lemma matches_field:
  assumes "n < 10 ^ Suc w"
  shows "matchesPattern (replicate (Suc w) (CHR ''9'') @ ps) (padStart (Suc w) (showNat n) @ cs)
           = matchesPattern ps cs"
  by (rule matches_digits)
     (simp_all add: length_padStart length_showNat[OF assms] padStart_digits showNat_digits)

lemma matches_two:
  assumes "n < 100"
  shows "matchesPattern (CHR ''9'' # CHR ''9'' # ps) (padStart 2 (showNat n) @ cs)
           = matchesPattern ps cs"
proof -
  have p: "n < 10 ^ Suc 1" using assms by simp
  have r: "replicate (Suc 1) (CHR ''9'') = [CHR ''9'', CHR ''9'']"
    by (simp add: numeral_eq_Suc)
  from matches_field[OF p, of ps cs] show ?thesis unfolding r by (simp add: numeral_2_eq_2)
qed

lemma matches_three:
  assumes "n < 1000"
  shows "matchesPattern (CHR ''9'' # CHR ''9'' # CHR ''9'' # ps) (padStart 3 (showNat n) @ cs)
           = matchesPattern ps cs"
proof -
  have p: "n < 10 ^ Suc 2" using assms by simp
  have r: "replicate (Suc 2) (CHR ''9'') = [CHR ''9'', CHR ''9'', CHR ''9'']"
    by (simp add: numeral_eq_Suc)
  from matches_field[OF p, of ps cs] show ?thesis unfolding r by simp
qed

lemma matches_four:
  assumes "n < 10000"
  shows "matchesPattern (CHR ''9'' # CHR ''9'' # CHR ''9'' # CHR ''9'' # ps) (padStart 4 (showNat n) @ cs)
           = matchesPattern ps cs"
proof -
  have p: "n < 10 ^ Suc 3" using assms by simp
  have r: "replicate (Suc 3) (CHR ''9'') = [CHR ''9'', CHR ''9'', CHR ''9'', CHR ''9'']"
    by (simp add: numeral_eq_Suc)
  from matches_field[OF p, of ps cs] show ?thesis unfolding r by simp
qed

lemma matches_six:
  assumes "n < 1000000"
  shows "matchesPattern (CHR ''9'' # CHR ''9'' # CHR ''9'' # CHR ''9'' # CHR ''9'' # CHR ''9'' # ps) (padStart 6 (showNat n) @ cs)
           = matchesPattern ps cs"
proof -
  have p: "n < 10 ^ Suc 5" using assms by simp
  have r: "replicate (Suc 5) (CHR ''9'') = [CHR ''9'', CHR ''9'', CHR ''9'', CHR ''9'', CHR ''9'', CHR ''9'']"
    by (simp add: numeral_eq_Suc)
  from matches_field[OF p, of ps cs] show ?thesis unfolding r by simp
qed

lemma matches_tail:
  assumes "validDate d"
  shows "matchesPattern ''-99-99T99:99:99.999Z''
           (''-'' @ padStart 2 (showNat (month d)) @ ''-'' @
            padStart 2 (showNat (day d)) @ ''T'' @ padStart 2 (showNat (hours d)) @ '':'' @
            padStart 2 (showNat (minutes d)) @ '':'' @ padStart 2 (showNat (seconds d)) @ ''.'' @
            padStart 3 (showNat (milliseconds d)) @ ''Z'')"
proof -
  from assms have b: "month d < 100" "day d < 100" "hours d < 100" "minutes d < 100"
    "seconds d < 100" "milliseconds d < 1000"
    by (simp_all add: validDate_def)
  have z: "padStart 3 (showNat (milliseconds d)) @ ''Z'' = padStart 3 (showNat (milliseconds d)) @ ''Z'' @ []"
    by simp
  show ?thesis
    by (simp add: matches_two[OF b(1)] matches_two[OF b(2)] matches_two[OF b(3)]
        matches_two[OF b(4)] matches_two[OF b(5)] matches_three[OF b(6)])
qed

lemma toISOString_format:
  assumes "validDate d"
  shows "isISO8601 (toISOString d)"
proof (cases "0 \<le> year d \<and> year d \<le> 9999")
  case True
  then have n: "nat (year d) < 10000" by linarith
  have ys: "yearString (year d) = padStart 4 (showNat (nat (year d)))"
    using True by (simp add: yearString_def)
  have "matchesPattern ''9999-99-99T99:99:99.999Z'' (toISOString d)"
    unfolding toISOString_def ys using matches_tail[OF assms]
    by (simp add: matches_four[OF n])
  then show ?thesis by (simp add: isISO8601_def)
next
  case False
  from assms have "- 271821 \<le> year d" "year d \<le> 275760" by (simp_all add: validDate_def)
  then have n: "nat \<bar>year d\<bar> < 1000000" by linarith
  show ?thesis
  proof (cases "year d < 0")
    case True
    have ys: "yearString (year d) = ''-'' @ padStart 6 (showNat (nat \<bar>year d\<bar>))"
      using True by (simp add: yearString_def)
    have "matchesPattern ''-999999-99-99T99:99:99.999Z'' (toISOString d)"
      unfolding toISOString_def ys using matches_tail[OF assms]
      by (simp add: matches_six[OF n])
    then show ?thesis by (simp add: isISO8601_def)
  next
    case nonneg: False
    have ys: "yearString (year d) = ''+'' @ padStart 6 (showNat (nat \<bar>year d\<bar>))"
      using nonneg False by (simp add: yearString_def)
    have "matchesPattern ''+999999-99-99T99:99:99.999Z'' (toISOString d)"
      unfolding toISOString_def ys using matches_tail[OF assms]
      by (simp add: matches_six[OF n])
    then show ?thesis by (simp add: isISO8601_def)
  qed
qed

subsection \<open>Sending\<close>

lemma isObject_objectLiteral: "isObject (objectLiteral fs)"
  by (simp add: isObject_def objectLiteral_def)

lemma sendMessage_open:
  assumes "ws svc = Some sock" and "readyState sock = OPEN"
  shows "sendMessage type payload svc e =
           (Returned,
            svc\<lparr>ws := Some (sock\<lparr>sent := sent sock @
               [JObj [(''type'', JStr type), (''payload'', payload),
                      (''timestamp'', JStr (toISOString (now e)))]]\<rparr>)\<rparr>,
            e\<lparr>console := console e @ [(LOG, ''Sent WebSocket message: '' @ type)]\<rparr>)"
  using assms by (simp add: sendMessage_def consoleWrite_def)

lemma sendMessage_closed:
  assumes "ws svc = None \<or> (\<exists>sock. ws svc = Some sock \<and> readyState sock \<noteq> OPEN)"
  shows "sendMessage type payload svc e =
           (Returned, svc,
            e\<lparr>console := console e @
               [(WARN, ''WebSocket is not connected, skipping message: '' @ type)]\<rparr>)"
  using assms by (auto simp: sendMessage_def consoleWrite_def)

lemma isEnvelope_message:
  "isObject p \<Longrightarrow> isISO8601 ts \<Longrightarrow>
     isEnvelope (JObj [(''type'', JStr t), (''payload'', p), (''timestamp'', JStr ts)])"
  by (simp add: isEnvelope_def)

text \<open>
  C7. When the socket is open, \<^verbatim>\<open>sendMessage\<close> writes one frame: the object with
  exactly the fields \<^verbatim>\<open>type\<close> (the given string), \<^verbatim>\<open>payload\<close> (the given object) and
  \<^verbatim>\<open>timestamp\<close> (what \<^verbatim>\<open>toISOString\<close> prints for the current time, a string in the
  ISO 8601 shape). The five operations built on it send such an envelope with their own
  type and an object literal as payload.
\<close>

theorem sent_message_is_envelope:
  assumes "ws svc = Some sock" and "readyState sock = OPEN"
      and "isObject payload" and "validDate (now e)"
  shows "fst (sendMessage type payload svc e) = Returned \<and>
         framesSent (fst (snd (sendMessage type payload svc e))) =
           sent sock @ [JObj [(''type'', JStr type), (''payload'', payload),
                              (''timestamp'', JStr (toISOString (now e)))]] \<and>
         isEnvelope (JObj [(''type'', JStr type), (''payload'', payload),
                           (''timestamp'', JStr (toISOString (now e)))]) \<and>
         (\<exists>m. framesSent (fst (snd (createTask task column projectId svc e))) = sent sock @ [m] \<and>
              isEnvelope m \<and> getMember (Some m) ''type'' = Inr (Some (JStr ''create_task''))) \<and>
         (\<exists>m. framesSent (fst (snd (updateTask taskId updates projectId svc e))) = sent sock @ [m] \<and>
              isEnvelope m \<and> getMember (Some m) ''type'' = Inr (Some (JStr ''update_task''))) \<and>
         (\<exists>m. framesSent (fst (snd (moveTask taskId fromColumn toColumn position projectId svc e)))
                = sent sock @ [m] \<and>
              isEnvelope m \<and> getMember (Some m) ''type'' = Inr (Some (JStr ''move_task''))) \<and>
         (\<exists>m. framesSent (fst (snd (deleteTask taskId column projectId svc e))) = sent sock @ [m] \<and>
              isEnvelope m \<and> getMember (Some m) ''type'' = Inr (Some (JStr ''delete_task''))) \<and>
         (\<exists>m. framesSent (fst (snd (requestBoardSync projectId svc e))) = sent sock @ [m] \<and>
              isEnvelope m \<and>
              getMember (Some m) ''type'' = Inr (Some (JStr ''request_board_sync'')))"
proof -
  note s = sendMessage_open[OF assms(1,2)]
  have iso: "isISO8601 (toISOString (now e))"
    using assms(4) by (rule toISOString_format)
  have env: "\<And>t p. isObject p \<Longrightarrow>
      isEnvelope (JObj [(''type'', JStr t), (''payload'', p),
                        (''timestamp'', JStr (toISOString (now e)))])"
    using iso by (simp add: isEnvelope_message)
  have a: "fst (sendMessage type payload svc e) = Returned" by (simp add: s)
  have b: "framesSent (fst (snd (sendMessage type payload svc e))) =
           sent sock @ [JObj [(''type'', JStr type), (''payload'', payload),
                              (''timestamp'', JStr (toISOString (now e)))]]"
    by (simp add: s framesSent_def)
  have c: "isEnvelope (JObj [(''type'', JStr type), (''payload'', payload),
                           (''timestamp'', JStr (toISOString (now e)))])"
    using assms(3) by (rule env)
  have w: "\<And>t p. \<exists>m. framesSent (fst (snd (sendMessage t (objectLiteral p) svc e))) = sent sock @ [m] \<and>
              isEnvelope m \<and> getMember (Some m) ''type'' = Inr (Some (JStr t))"
    by (simp add: s framesSent_def env isObject_objectLiteral getMember_def)
  show ?thesis
    unfolding createTask_def updateTask_def moveTask_def deleteTask_def requestBoardSync_def
    using a b c w by blast
qed

lemma connected_eq:
  "connected =
     (constructor ()\<lparr>ws := Some \<lparr>socket_url = ''ws://localhost:8000/ws?user_id=anonymous'',
                               readyState = OPEN, sent = []\<rparr>,
                  isConnected := True\<rparr>,
      env0\<lparr>console := [(LOG, ''Attempting to connect to WebSocket: ws://localhost:8000/ws?user_id=anonymous''),
                        (LOG, ''WebSocket connected successfully'')]\<rparr>)"
  by (simp add: connected_def connect_def onopen_def notifyListeners_def constructor_def
      consoleWrite_def setReadyState_def env0_def)


lemma toISOString_env0: "toISOString (now env0) = ''2025-02-05T09:30:07.042Z''"
  by (simp add: env0_def toISOString_def yearString_def padStart_def showNat.simps digitChar_def)

theorem sent_message_is_envelope_witness:
  "ws (fst connected) =
     Some \<lparr>socket_url = ''ws://localhost:8000/ws?user_id=anonymous'', readyState = OPEN, sent = []\<rparr> \<and>
   isObject (objectLiteral [(''projectId'', Some (JNum 1))]) \<and>
   validDate (now (snd connected)) \<and>
   framesSent (fst (snd (sendMessage ''request_board_sync''
       (objectLiteral [(''projectId'', Some (JNum 1))]) (fst connected) (snd connected)))) =
     [JObj [(''type'', JStr ''request_board_sync''), (''payload'', JObj [(''projectId'', JNum 1)]),
            (''timestamp'', JStr ''2025-02-05T09:30:07.042Z'')]]"
proof -
  have h1: "ws (fst connected) =
     Some \<lparr>socket_url = ''ws://localhost:8000/ws?user_id=anonymous'', readyState = OPEN, sent = []\<rparr>"
    by (simp add: connected_eq)
  have h2: "readyState \<lparr>socket_url = ''ws://localhost:8000/ws?user_id=anonymous'',
     readyState = OPEN, sent = []\<rparr> = OPEN"
    by simp
  have h3: "isObject (objectLiteral [(''projectId'', Some (JNum 1))])"
    by (simp add: isObject_def objectLiteral_def)
  have h4: "validDate (now (snd connected))"
    by (simp add: connected_eq env0_def validDate_def)
  have n: "now (snd connected) = now env0" by (simp add: connected_eq)
  have o: "objectLiteral [(''projectId'', Some (JNum 1))] = JObj [(''projectId'', JNum 1)]"
    by (simp add: objectLiteral_def)
  from sent_message_is_envelope[OF h1 h2 h3 h4, of "''request_board_sync''"] h1 h3 h4
  show ?thesis by (simp add: n o toISOString_env0)
qed

text \<open>
  C9. When there is no socket, or the socket is not in the state \<^verbatim>\<open>OPEN\<close>,
  \<^verbatim>\<open>sendMessage\<close> returns without throwing, writes no frame and leaves the service as
  it was; all it does is a warning on the console. The same holds for \<^verbatim>\<open>createTask\<close>,
  \<^verbatim>\<open>updateTask\<close>, \<^verbatim>\<open>moveTask\<close>, \<^verbatim>\<open>deleteTask\<close> and \<^verbatim>\<open>requestBoardSync\<close>.
\<close>

theorem send_when_not_open_is_noop:
  assumes "ws svc = None \<or> (\<exists>sock. ws svc = Some sock \<and> readyState sock \<noteq> OPEN)"
  shows "sendMessage type payload svc e =
           (Returned, svc,
            e\<lparr>console := console e @
               [(WARN, ''WebSocket is not connected, skipping message: '' @ type)]\<rparr>) \<and>
         createTask task column projectId svc e =
           (Returned, svc,
            e\<lparr>console := console e @
               [(WARN, ''WebSocket is not connected, skipping message: create_task'')]\<rparr>) \<and>
         updateTask taskId updates projectId svc e =
           (Returned, svc,
            e\<lparr>console := console e @
               [(WARN, ''WebSocket is not connected, skipping message: update_task'')]\<rparr>) \<and>
         moveTask taskId fromColumn toColumn position projectId svc e =
           (Returned, svc,
            e\<lparr>console := console e @
               [(WARN, ''WebSocket is not connected, skipping message: move_task'')]\<rparr>) \<and>
         deleteTask taskId column projectId svc e =
           (Returned, svc,
            e\<lparr>console := console e @
               [(WARN, ''WebSocket is not connected, skipping message: delete_task'')]\<rparr>) \<and>
         requestBoardSync projectId svc e =
           (Returned, svc,
            e\<lparr>console := console e @
               [(WARN, ''WebSocket is not connected, skipping message: request_board_sync'')]\<rparr>) \<and>
         framesSent (fst (snd (sendMessage type payload svc e))) = framesSent svc"
  unfolding createTask_def updateTask_def moveTask_def deleteTask_def requestBoardSync_def
  by (simp add: sendMessage_closed[OF assms])

theorem send_when_not_open_is_noop_witness:
  "ws (fst (snd (connect ''anonymous'' True (constructor ()) env0))) =
     Some \<lparr>socket_url = ''ws://localhost:8000/ws?user_id=anonymous'', readyState = CONNECTING,
           sent = []\<rparr> \<and>
   moveTask (Some (JStr ''PA-1'')) (Some (JStr ''TO DO'')) (Some (JStr ''DONE'')) None (Some (JNum 1))
       (fst (snd (connect ''anonymous'' True (constructor ()) env0))) env0 =
     (Returned, fst (snd (connect ''anonymous'' True (constructor ()) env0)),
      env0\<lparr>console := [(WARN, ''WebSocket is not connected, skipping message: move_task'')]\<rparr>)"
proof -
  let ?svc = "fst (snd (connect ''anonymous'' True (constructor ()) env0))
                :: (nat \<times> json option) list service"
  have h: "ws ?svc =
     Some \<lparr>socket_url = ''ws://localhost:8000/ws?user_id=anonymous'', readyState = CONNECTING,
           sent = []\<rparr>"
    by (simp add: connect_def constructor_def)
  then have "ws ?svc = None \<or> (\<exists>sock. ws ?svc = Some sock \<and> readyState sock \<noteq> OPEN)"
    by simp
  from send_when_not_open_is_noop[OF this, where taskId = "Some (JStr ''PA-1'')"
      and fromColumn = "Some (JStr ''TO DO'')" and toColumn = "Some (JStr ''DONE'')"
      and position = None and projectId = "Some (JNum 1)" and e = env0] h
  show ?thesis by (simp add: env0_def)
qed

subsection \<open>Inbound messages\<close>

lemma handleMessage_unknown:
  assumes "getMember (Some data) ''type'' = Inr ty"
      and "ty \<notin> set (map (\<lambda>s. Some (JStr s)) recognizedTypes)"
  shows "handleMessage data svc e = (Returned, svc, consoleWrite LOG ''Unknown message type:'' e)"
proof -
  from assms(1) obtain p where p: "getMember (Some data) ''payload'' = Inr p"
    by (auto simp: getMember_def split: json.splits)
  from assms(2) have "ty \<noteq> Some (JStr ''task_created'')" "ty \<noteq> Some (JStr ''task_updated'')"
    "ty \<noteq> Some (JStr ''task_moved'')" "ty \<noteq> Some (JStr ''task_deleted'')"
    "ty \<noteq> Some (JStr ''user_count'')" "ty \<noteq> Some (JStr ''board_sync'')"
    by (auto simp: recognizedTypes_def)
  then show ?thesis using assms(1) p by (simp add: handleMessage_def)
qed

text \<open>
  C5, as the code has it. A message whose type is none of the six the client knows is
  ignored: \<^verbatim>\<open>handleMessage\<close> returns normally, the service (its socket and the frames
  written to it included) is unchanged, no listener runs, no timer is set, and the only
  trace is a line on the console. The same holds when the message comes in through
  \<^verbatim>\<open>onmessage\<close>.
\<close>

theorem unknown_message_type_ignored:
  assumes "getMember (Some data) ''type'' = Inr ty"
      and "ty \<notin> set (map (\<lambda>s. Some (JStr s)) recognizedTypes)"
  shows "handleMessage data svc e =
           (Returned, svc, e\<lparr>console := console e @ [(LOG, ''Unknown message type:'')]\<rparr>) \<and>
         onmessage (Some data) svc e =
           (Returned, svc, e\<lparr>console := console e @ [(LOG, ''Unknown message type:'')]\<rparr>)"
  by (simp add: handleMessage_unknown[OF assms] onmessage_def consoleWrite_def)

theorem unknown_message_type_ignored_witness:
  "getMember (Some (JObj [(''type'', JStr ''subscribe_project''), (''payload'', JObj [])])) ''type''
     = Inr (Some (JStr ''subscribe_project'')) \<and>
   Some (JStr ''subscribe_project'') \<notin> set (map (\<lambda>s. Some (JStr s)) recognizedTypes) \<and>
   onmessage (Some (JObj [(''type'', JStr ''subscribe_project''), (''payload'', JObj [])]))
       (fst connected) (snd connected) =
     (Returned, fst connected,
      (snd connected)\<lparr>console := console (snd connected) @ [(LOG, ''Unknown message type:'')]\<rparr>)"
proof -
  have h1: "getMember (Some (JObj [(''type'', JStr ''subscribe_project''), (''payload'', JObj [])]))
      ''type'' = Inr (Some (JStr ''subscribe_project''))"
    by (simp add: getMember_def)
  have h2: "Some (JStr ''subscribe_project'') \<notin> set (map (\<lambda>s. Some (JStr s)) recognizedTypes)"
    by (simp add: recognizedTypes_def)
  from unknown_message_type_ignored[OF h1 h2] h1 h2 show ?thesis by blast
qed

text \<open>
  The specification asks for a rejection with \<^verbatim>\<open>ProtocolError\<close> and an error
  acknowledgment. On the connected service, with a listener on every event, a message of
  an unknown type raises nothing, and nothing is written to the socket or told to a
  listener.
\<close>

theorem unknown_message_type_no_error_reply:
  "fst (handleMessage (JObj [(''type'', JStr ''bogus''), (''payload'', JObj [])])
         (subscribe ''error'' (recorder 2) (subscribe ''connection'' (recorder 1) (fst connected)))
         (snd connected)) = Returned \<and>
   framesSent (fst (snd (handleMessage (JObj [(''type'', JStr ''bogus''), (''payload'', JObj [])])
         (subscribe ''error'' (recorder 2) (subscribe ''connection'' (recorder 1) (fst connected)))
         (snd connected)))) = [] \<and>
   page (snd (snd (handleMessage (JObj [(''type'', JStr ''bogus''), (''payload'', JObj [])])
         (subscribe ''error'' (recorder 2) (subscribe ''connection'' (recorder 1) (fst connected)))
         (snd connected)))) = []"
  by (simp add: handleMessage_def getMember_def consoleWrite_def connected_eq framesSent_def
      subscribe_def constructor_def env0_def)

lemma handleMessage_known:
  assumes "(ty, ev) \<in> set [(''task_created'', ''taskCreated''), (''task_updated'', ''taskUpdated''),
             (''task_moved'', ''taskMoved''), (''task_deleted'', ''taskDeleted''),
             (''board_sync'', ''boardSync'')]"
      and "getMember (Some data) ''type'' = Inr (Some (JStr ty))"
  shows "handleMessage data svc e = notifyListeners ev (payloadOf data) svc e"
proof -
  from assms(2) obtain p where p: "getMember (Some data) ''payload'' = Inr p"
    by (auto simp: getMember_def split: json.splits)
  then have q: "payloadOf data = p" by (simp add: payloadOf_def)
  from assms(1) show ?thesis
    using assms(2) p q by (auto simp: handleMessage_def)
qed

lemma onmessage_recorded:
  assumes "callbacksFor svc ''taskCreated'' = [recorder n]"
      and "getMember (Some m) ''type'' = Inr (Some (JStr ''task_created''))"
  shows "onmessage (Some m) svc e = (Returned, svc, e\<lparr>page := page e @ [(n, payloadOf m)]\<rparr>)"
proof -
  have "handleMessage m svc e = notifyListeners ''taskCreated'' (payloadOf m) svc e"
    using assms(2) by (intro handleMessage_known) simp_all
  then show ?thesis
    by (simp add: onmessage_def notify_single_recorder[OF assms(1)])
qed

lemma onmessages_recorded:
  assumes "callbacksFor svc ''taskCreated'' = [recorder n]"
  shows "\<forall>m \<in> set ms. getMember (Some m) ''type'' = Inr (Some (JStr ''task_created'')) \<Longrightarrow>
         onmessages ms svc e = (svc, e\<lparr>page := page e @ map (\<lambda>m. (n, payloadOf m)) ms\<rparr>)"
proof (induction ms arbitrary: e)
  case Nil
  then show ?case by simp
next
  case (Cons m ms)
  from Cons.prems have t: "getMember (Some m) ''type'' = Inr (Some (JStr ''task_created''))"
    and r: "\<forall>m \<in> set ms. getMember (Some m) ''type'' = Inr (Some (JStr ''task_created''))"
    by simp_all
  show ?case
    by (simp add: onmessage_recorded[OF assms t] Cons.IH[OF r])
qed

text \<open>
  C4, as the code has it. The client makes no use of sequence numbers. A message of one
  of the five task and board types is handed to the listeners of its event as it arrives,
  with its payload as it is. A listener on \<^verbatim>\<open>taskCreated\<close> that writes down what it is
  given ends up with the payloads of all \<^verbatim>\<open>task_created\<close> messages, one entry for each
  arriving message, in the order of arrival, whatever sequence numbers they carry; and
  nothing of the service but its listeners (which a listener may change) is different
  afterwards, so it records no last delivered sequence number.
\<close>

theorem inbound_events_forwarded_as_they_arrive:
  "((ty, ev) \<in> set [(''task_created'', ''taskCreated''), (''task_updated'', ''taskUpdated''),
             (''task_moved'', ''taskMoved''), (''task_deleted'', ''taskDeleted''),
             (''board_sync'', ''boardSync'')] \<and>
    getMember (Some data) ''type'' = Inr (Some (JStr ty)) \<longrightarrow>
      handleMessage data svc e = notifyListeners ev (payloadOf data) svc e \<and>
      (fst (snd (handleMessage data svc e)))\<lparr>listeners := listeners svc\<rparr> = svc) \<and>
   (callbacksFor svc ''taskCreated'' = [recorder n] \<and>
    (\<forall>m \<in> set ms. getMember (Some m) ''type'' = Inr (Some (JStr ''task_created''))) \<longrightarrow>
      onmessages ms svc e = (svc, e\<lparr>page := page e @ map (\<lambda>m. (n, payloadOf m)) ms\<rparr>))"
proof -
  have k: "(fst (snd (notifyListeners ev (payloadOf data) svc e)))\<lparr>listeners := listeners svc\<rparr>
      = svc"
    using notifyListeners_keeps[of ev "payloadOf data" svc e]
    by (cases svc, cases "fst (snd (notifyListeners ev (payloadOf data) svc e))") simp
  show ?thesis
    using k by (auto simp: handleMessage_known onmessages_recorded simp del: set_simps list.set)
qed

theorem inbound_events_forwarded_as_they_arrive_witness:
  "callbacksFor (subscribe ''taskCreated'' (recorder 0) (fst connected)) ''taskCreated''
     = [recorder 0] \<and>
   getMember (Some (taskCreatedMessage 1)) ''type'' = Inr (Some (JStr ''task_created'')) \<and>
   getMember (Some (taskCreatedMessage 2)) ''type'' = Inr (Some (JStr ''task_created'')) \<and>
   onmessages [taskCreatedMessage 1, taskCreatedMessage 2] (subscribe ''taskCreated'' (recorder 0) (fst connected))
       (snd connected) =
     (subscribe ''taskCreated'' (recorder 0) (fst connected),
      (snd connected)\<lparr>page := [(0, Some (JObj [(''sequence'', JNum 1)])),
                                 (0, Some (JObj [(''sequence'', JNum 2)]))]\<rparr>)"
proof -
  let ?svc = "subscribe ''taskCreated'' (recorder 0) (fst connected)"
  have c: "callbacksFor ?svc ''taskCreated'' = [recorder 0]"
    by (simp add: callbacksFor_subscribe) (simp add: callbacksFor_def connected_eq constructor_def)
  have t: "\<And>k. getMember (Some (taskCreatedMessage k)) ''type'' = Inr (Some (JStr ''task_created''))"
    by (simp add: taskCreatedMessage_def getMember_def)
  have p: "\<And>k. payloadOf (taskCreatedMessage k) = Some (JObj [(''sequence'', JNum k)])"
    by (simp add: taskCreatedMessage_def payloadOf_def getMember_def)
  have a: "\<forall>m \<in> set [taskCreatedMessage 1, taskCreatedMessage 2].
      getMember (Some m) ''type'' = Inr (Some (JStr ''task_created''))"
    by (simp add: t)
  have e: "page (snd connected) = []" by (simp add: connected_eq env0_def)
  from inbound_events_forwarded_as_they_arrive[where svc = ?svc and n = 0
      and ms = "[taskCreatedMessage 1, taskCreatedMessage 2]" and e = "snd connected"] c a
  have "onmessages [taskCreatedMessage 1, taskCreatedMessage 2] ?svc (snd connected) =
     (?svc, (snd connected)\<lparr>page := page (snd connected) @
        map (\<lambda>m. (0, payloadOf m)) [taskCreatedMessage 1, taskCreatedMessage 2]\<rparr>)"
    by blast
  then have "onmessages [taskCreatedMessage 1, taskCreatedMessage 2] ?svc (snd connected) =
     (?svc, (snd connected)\<lparr>page := [(0, Some (JObj [(''sequence'', JNum 1)])),
                                 (0, Some (JObj [(''sequence'', JNum 2)]))]\<rparr>)"
    by (simp add: p e)
  with c t show ?thesis by blast
qed

text \<open>
  The specification asks for strictly increasing sequence numbers with no gaps and no
  duplicates, and for a last delivered sequence number kept by the session. Events 2, 1
  and 1 again, arriving in this order, are all handed to the listener in this order, and
  the service is afterwards what it was before.
\<close>

theorem events_observed_out_of_order_and_twice:
  "map (sequenceOf \<circ> snd)
     (page (snd (onmessages [taskCreatedMessage 2, taskCreatedMessage 1, taskCreatedMessage 1]
        (subscribe ''taskCreated'' (recorder 0) (fst connected)) (snd connected))))
     = [Some 2, Some 1, Some 1] \<and>
   fst (onmessages [taskCreatedMessage 2, taskCreatedMessage 1, taskCreatedMessage 1]
        (subscribe ''taskCreated'' (recorder 0) (fst connected)) (snd connected))
     = subscribe ''taskCreated'' (recorder 0) (fst connected)"
proof -
  let ?svc = "subscribe ''taskCreated'' (recorder 0) (fst connected)"
  have c: "callbacksFor ?svc ''taskCreated'' = [recorder 0]"
    by (simp add: callbacksFor_subscribe) (simp add: callbacksFor_def connected_eq constructor_def)
  have t: "\<forall>m \<in> set [taskCreatedMessage 2, taskCreatedMessage 1, taskCreatedMessage 1].
      getMember (Some m) ''type'' = Inr (Some (JStr ''task_created''))"
    by (simp add: taskCreatedMessage_def getMember_def)
  have s: "\<And>k. sequenceOf (payloadOf (taskCreatedMessage k)) = Some k"
    by (simp add: taskCreatedMessage_def payloadOf_def sequenceOf_def getMember_def)
  have e: "page (snd connected) = []" by (simp add: connected_eq env0_def)
  have r: "onmessages [taskCreatedMessage 2, taskCreatedMessage 1, taskCreatedMessage 1] ?svc (snd connected) =
      (?svc, (snd connected)\<lparr>page := page (snd connected) @
         map (\<lambda>m. (0, payloadOf m)) [taskCreatedMessage 2, taskCreatedMessage 1, taskCreatedMessage 1]\<rparr>)"
    using t by (rule onmessages_recorded[OF c])
  show ?thesis unfolding r by (simp add: e s)
qed

subsection \<open>Reconnecting\<close>

lemma attemptReconnect_below:
  assumes "reconnectAttempts svc < maxReconnectAttempts svc"
  shows "attemptReconnect userId svc e =
           (Returned, svc\<lparr>reconnectAttempts := reconnectAttempts svc + 1\<rparr>,
            e\<lparr>console := console e @
                 [(LOG, ''Attempting to reconnect... ('' @ showNat (reconnectAttempts svc + 1) @
                        ''/'' @ showNat (maxReconnectAttempts svc) @ '')'')],
              timers := timers e @ [(reconnectInterval svc, CallConnect userId)]\<rparr>)"
  using assms by (simp add: attemptReconnect_def consoleWrite_def Let_def)

lemma attemptReconnect_capped:
  assumes "\<not> reconnectAttempts svc < maxReconnectAttempts svc"
  shows "attemptReconnect userId svc e =
           (Returned, svc,
            e\<lparr>console := console e @ [(LOG, ''Max reconnection attempts reached'')]\<rparr>)"
  using assms by (simp add: attemptReconnect_def consoleWrite_def)

lemma onclose_counters:
  "reconnectAttempts (fst (snd (onclose code userId svc e))) =
     (if code \<noteq> 1000 \<and> reconnectAttempts svc < maxReconnectAttempts svc
      then reconnectAttempts svc + 1 else reconnectAttempts svc) \<and>
   maxReconnectAttempts (fst (snd (onclose code userId svc e))) = maxReconnectAttempts svc \<and>
   reconnectInterval (fst (snd (onclose code userId svc e))) = reconnectInterval svc \<and>
   timers (snd (snd (onclose code userId svc e))) =
     (if code \<noteq> 1000 \<and> reconnectAttempts svc < maxReconnectAttempts svc
      then timers e @ [(reconnectInterval svc, CallConnect userId)] else timers e)"
proof -
  let ?svc0 = "(setReadyState CLOSED svc)\<lparr>isConnected := False\<rparr>"
  let ?e0 = "consoleWrite LOG ''WebSocket disconnected:'' e"
  obtain c svc1 e1 where
    n: "notifyListeners ''connection'' (Some (JObj [(''status'', JStr ''disconnected'')])) ?svc0 ?e0
          = (c, svc1, e1)"
    by (cases "notifyListeners ''connection''
          (Some (JObj [(''status'', JStr ''disconnected'')])) ?svc0 ?e0") auto
  note keeps = notifyListeners_keeps[of "''connection''"
      "Some (JObj [(''status'', JStr ''disconnected'')])" ?svc0 ?e0, unfolded n]
  have s: "reconnectAttempts (setReadyState CLOSED svc) = reconnectAttempts svc"
    "maxReconnectAttempts (setReadyState CLOSED svc) = maxReconnectAttempts svc"
    "reconnectInterval (setReadyState CLOSED svc) = reconnectInterval svc"
    by (simp_all add: setReadyState_def split: option.splits)
  from keeps have k: "reconnectAttempts svc1 = reconnectAttempts svc"
    "maxReconnectAttempts svc1 = maxReconnectAttempts svc"
    "reconnectInterval svc1 = reconnectInterval svc" "timers e1 = timers e"
    by (simp_all add: s consoleWrite_def)
  show ?thesis
    unfolding onclose_def n
    by (simp add: k attemptReconnect_def consoleWrite_def Let_def)
qed

lemma onerror_counters:
  "reconnectAttempts (fst (snd (onerror svc e))) = reconnectAttempts svc \<and>
   maxReconnectAttempts (fst (snd (onerror svc e))) = maxReconnectAttempts svc \<and>
   reconnectInterval (fst (snd (onerror svc e))) = reconnectInterval svc \<and>
   timers (snd (snd (onerror svc e))) = timers e"
  unfolding onerror_def
  using notifyListeners_keeps[of "''connection''"
      "Some (JObj [(''status'', JStr ''error''), (''error'', JObj [])])"
      "svc\<lparr>isConnected := False\<rparr>" "consoleWrite ERROR ''WebSocket connection error:'' e"]
  by (simp add: consoleWrite_def)

lemma connect_counters:
  "reconnectAttempts (fst (snd (connect userId constructs svc e))) = reconnectAttempts svc \<and>
   maxReconnectAttempts (fst (snd (connect userId constructs svc e))) = maxReconnectAttempts svc \<and>
   reconnectInterval (fst (snd (connect userId constructs svc e))) = reconnectInterval svc \<and>
   timers (snd (snd (connect userId constructs svc e))) =
     (if \<not> socketOpen svc \<and> \<not> constructs
      then timers e @ [(reconnectInterval svc, CallAttemptReconnect userId)] else timers e)"
proof (cases "socketOpen svc \<or> constructs")
  case True
  then show ?thesis
    by (auto simp: connect_def socketOpen_def consoleWrite_def Let_def split: option.splits)
next
  case False
  let ?e1 = "consoleWrite ERROR ''Failed to create WebSocket connection:''
      (consoleWrite LOG
        (''Attempting to connect to WebSocket: '' @ url svc @ ''?user_id='' @ userId) e)"
  obtain c svc2 e2 where
    n: "notifyListeners ''connection''
          (Some (JObj [(''status'', JStr ''error''), (''error'', JObj [])])) svc ?e1 = (c, svc2, e2)"
    by (cases "notifyListeners ''connection''
          (Some (JObj [(''status'', JStr ''error''), (''error'', JObj [])])) svc ?e1") auto
  note keeps = notifyListeners_keeps[of "''connection''"
      "Some (JObj [(''status'', JStr ''error''), (''error'', JObj [])])" svc ?e1, unfolded n]
  from keeps have k: "reconnectAttempts svc2 = reconnectAttempts svc"
    "maxReconnectAttempts svc2 = maxReconnectAttempts svc"
    "reconnectInterval svc2 = reconnectInterval svc" "timers e2 = timers e"
    by (simp_all add: consoleWrite_def)
  from False have f: "\<not> (case ws svc of Some sock \<Rightarrow> readyState sock = OPEN | None \<Rightarrow> False)"
    "\<not> constructs" "\<not> socketOpen svc"
    by (auto simp: socketOpen_def split: option.splits)
  show ?thesis
    unfolding connect_def Let_def using f n by (simp add: k)
qed

lemma attemptReconnect_counters:
  "reconnectAttempts (fst (snd (attemptReconnect userId svc e))) =
     (if reconnectAttempts svc < maxReconnectAttempts svc
      then reconnectAttempts svc + 1 else reconnectAttempts svc) \<and>
   maxReconnectAttempts (fst (snd (attemptReconnect userId svc e))) = maxReconnectAttempts svc \<and>
   reconnectInterval (fst (snd (attemptReconnect userId svc e))) = reconnectInterval svc \<and>
   timers (snd (snd (attemptReconnect userId svc e))) =
     (if reconnectAttempts svc < maxReconnectAttempts svc
      then timers e @ [(reconnectInterval svc, CallConnect userId)] else timers e)"
  by (simp add: attemptReconnect_def consoleWrite_def Let_def)

text \<open>
  Whatever happens, the count of attempts only grows, by one for each timer set for
  \<^verbatim>\<open>connect\<close>, and not beyond the maximum; and every timer set waits \<^verbatim>\<open>reconnectInterval\<close>.
\<close>

lemma happens_step:
  assumes "reconnectAttempts svc \<le> maxReconnectAttempts svc"
  shows "reconnectAttempts svc \<le> reconnectAttempts (fst (snd (happens h userId svc e))) \<and>
         reconnectAttempts (fst (snd (happens h userId svc e))) \<le> maxReconnectAttempts svc \<and>
         maxReconnectAttempts (fst (snd (happens h userId svc e))) = maxReconnectAttempts svc \<and>
         reconnectInterval (fst (snd (happens h userId svc e))) = reconnectInterval svc \<and>
         (\<exists>added. timers (snd (snd (happens h userId svc e))) = timers e @ added \<and>
            (\<forall>t \<in> set added. fst t = reconnectInterval svc) \<and>
            length (filter (\<lambda>t. snd t = CallConnect userId) added) =
              reconnectAttempts (fst (snd (happens h userId svc e))) - reconnectAttempts svc)"
proof (cases h)
  case (Closes code)
  show ?thesis
    using assms onclose_counters[of code userId svc e] unfolding Closes happens.simps
    by (cases "code \<noteq> 1000 \<and> reconnectAttempts svc < maxReconnectAttempts svc") auto
next
  case Errors
  show ?thesis
    using assms onerror_counters[of svc e] unfolding Errors happens.simps by auto
next
  case (ConnectDue constructs)
  show ?thesis
    using assms connect_counters[of userId constructs svc e] unfolding ConnectDue happens.simps
    by (cases "\<not> socketOpen svc \<and> \<not> constructs") auto
next
  case AttemptDue
  show ?thesis
    using assms attemptReconnect_counters[of userId svc e] unfolding AttemptDue happens.simps
    by (cases "reconnectAttempts svc < maxReconnectAttempts svc") auto
qed

lemma history_counters:
  "reconnectAttempts svc \<le> maxReconnectAttempts svc \<Longrightarrow>
   reconnectAttempts svc \<le> reconnectAttempts (fst (history hs userId svc e)) \<and>
   reconnectAttempts (fst (history hs userId svc e)) \<le> maxReconnectAttempts svc \<and>
   maxReconnectAttempts (fst (history hs userId svc e)) = maxReconnectAttempts svc \<and>
   reconnectInterval (fst (history hs userId svc e)) = reconnectInterval svc \<and>
   (\<exists>added. timers (snd (history hs userId svc e)) = timers e @ added \<and>
      (\<forall>t \<in> set added. fst t = reconnectInterval svc) \<and>
      length (filter (\<lambda>t. snd t = CallConnect userId) added) =
        reconnectAttempts (fst (history hs userId svc e)) - reconnectAttempts svc)"
proof (induction hs arbitrary: svc e)
  case Nil
  then show ?case by simp
next
  case (Cons h hs)
  obtain c svc' e' where o: "happens h userId svc e = (c, svc', e')"
    by (cases "happens h userId svc e") auto
  from happens_step[OF Cons.prems, of h userId e]
  have s1: "reconnectAttempts svc \<le> reconnectAttempts svc'"
    and s2: "reconnectAttempts svc' \<le> maxReconnectAttempts svc"
    and s3: "maxReconnectAttempts svc' = maxReconnectAttempts svc"
    and s4: "reconnectInterval svc' = reconnectInterval svc"
    and s5: "\<exists>added. timers e' = timers e @ added \<and>
            (\<forall>t \<in> set added. fst t = reconnectInterval svc) \<and>
            length (filter (\<lambda>t. snd t = CallConnect userId) added) =
              reconnectAttempts svc' - reconnectAttempts svc"
    by (simp_all add: o)
  from s5 obtain a1 where a1: "timers e' = timers e @ a1"
    "\<forall>t \<in> set a1. fst t = reconnectInterval svc"
    "length (filter (\<lambda>t. snd t = CallConnect userId) a1) =
       reconnectAttempts svc' - reconnectAttempts svc"
    by blast
  from s2 s3 have le: "reconnectAttempts svc' \<le> maxReconnectAttempts svc'" by simp
  from Cons.IH[OF le, of e']
  have r1: "reconnectAttempts svc' \<le> reconnectAttempts (fst (history hs userId svc' e'))"
    and r2: "reconnectAttempts (fst (history hs userId svc' e')) \<le> maxReconnectAttempts svc'"
    and r3: "maxReconnectAttempts (fst (history hs userId svc' e')) = maxReconnectAttempts svc'"
    and r4: "reconnectInterval (fst (history hs userId svc' e')) = reconnectInterval svc'"
    and r5: "\<exists>added. timers (snd (history hs userId svc' e')) = timers e' @ added \<and>
      (\<forall>t \<in> set added. fst t = reconnectInterval svc') \<and>
      length (filter (\<lambda>t. snd t = CallConnect userId) added) =
        reconnectAttempts (fst (history hs userId svc' e')) - reconnectAttempts svc'"
    by blast+
  from r5 obtain a2 where a2: "timers (snd (history hs userId svc' e')) = timers e' @ a2"
    "\<forall>t \<in> set a2. fst t = reconnectInterval svc'"
    "length (filter (\<lambda>t. snd t = CallConnect userId) a2) =
       reconnectAttempts (fst (history hs userId svc' e')) - reconnectAttempts svc'"
    by blast
  have h: "history (h # hs) userId svc e = history hs userId svc' e'" by (simp add: o)
  have t: "timers (snd (history hs userId svc' e')) = timers e @ (a1 @ a2)"
    by (simp add: a1(1) a2(1))
  have d: "\<forall>t \<in> set (a1 @ a2). fst t = reconnectInterval svc"
    using a1(2) a2(2) s4 by auto
  have n: "length (filter (\<lambda>t. snd t = CallConnect userId) (a1 @ a2)) =
      reconnectAttempts (fst (history hs userId svc' e')) - reconnectAttempts svc"
    using a1(3) a2(3) s1 r1 by simp
  from t d n have ex: "\<exists>added. timers (snd (history hs userId svc' e')) = timers e @ added \<and>
      (\<forall>t \<in> set added. fst t = reconnectInterval svc) \<and>
      length (filter (\<lambda>t. snd t = CallConnect userId) added) =
        reconnectAttempts (fst (history hs userId svc' e')) - reconnectAttempts svc"
    by blast
  from s1 r1 have g1: "reconnectAttempts svc \<le> reconnectAttempts (fst (history hs userId svc' e'))"
    by simp
  from r2 s3 have g2: "reconnectAttempts (fst (history hs userId svc' e')) \<le> maxReconnectAttempts svc"
    by simp
  from r3 s3 have g3: "maxReconnectAttempts (fst (history hs userId svc' e')) = maxReconnectAttempts svc"
    by simp
  from r4 s4 have g4: "reconnectInterval (fst (history hs userId svc' e')) = reconnectInterval svc"
    by simp
  from g1 g2 g3 g4 ex show ?case unfolding h by blast
qed

lemma drops_counters:
  "reconnectAttempts svc \<le> maxReconnectAttempts svc \<Longrightarrow> \<forall>code \<in> set codes. code \<noteq> 1000 \<Longrightarrow>
   reconnectAttempts (fst (drops codes userId svc e)) =
     min (reconnectAttempts svc + length codes) (maxReconnectAttempts svc) \<and>
   maxReconnectAttempts (fst (drops codes userId svc e)) = maxReconnectAttempts svc \<and>
   timers (snd (drops codes userId svc e)) =
     timers e @ replicate (min (length codes) (maxReconnectAttempts svc - reconnectAttempts svc))
                  (reconnectInterval svc, CallConnect userId)"
proof (induction codes arbitrary: svc e)
  case Nil
  then show ?case by simp
next
  case (Cons code codes)
  obtain c svc' e' where o: "onclose code userId svc e = (c, svc', e')"
    by (cases "onclose code userId svc e") auto
  from Cons.prems(2) have code: "code \<noteq> 1000" and rest: "\<forall>code \<in> set codes. code \<noteq> 1000"
    by simp_all
  note k = onclose_counters[of code userId svc e, unfolded o, simplified]
  show ?case
  proof (cases "reconnectAttempts svc < maxReconnectAttempts svc")
    case True
    with k code have a: "reconnectAttempts svc' = reconnectAttempts svc + 1"
      and m: "maxReconnectAttempts svc' = maxReconnectAttempts svc"
      and i: "reconnectInterval svc' = reconnectInterval svc"
      and t: "timers e' = timers e @ [(reconnectInterval svc, CallConnect userId)]"
      by simp_all
    from True a m have le: "reconnectAttempts svc' \<le> maxReconnectAttempts svc'" by simp
    from True have r: "min (Suc (length codes)) (maxReconnectAttempts svc - reconnectAttempts svc) =
        Suc (min (length codes) (maxReconnectAttempts svc - (reconnectAttempts svc + 1)))"
      by linarith
    from Cons.IH[OF le rest, of e'] show ?thesis
      by (simp add: o a m i t r replicate_app_Cons_same)
  next
    case False
    with k have a: "reconnectAttempts svc' = reconnectAttempts svc"
      and m: "maxReconnectAttempts svc' = maxReconnectAttempts svc"
      and i: "reconnectInterval svc' = reconnectInterval svc"
      and t: "timers e' = timers e"
      by simp_all
    from Cons.prems a m have le: "reconnectAttempts svc' \<le> maxReconnectAttempts svc'" by simp
    from False Cons.prems have eq: "reconnectAttempts svc = maxReconnectAttempts svc" by simp
    from Cons.IH[OF le rest, of e'] show ?thesis
      by (simp add: o a m i t eq)
  qed
qed

lemma onclose_recorded:
  assumes "callbacksFor svc ''connection'' = [recorder k]"
  shows "callbacksFor (fst (snd (onclose code userId svc e))) ''connection'' = [recorder k] \<and>
         page (snd (snd (onclose code userId svc e))) =
           page e @ [(k, Some (JObj [(''status'', JStr ''disconnected'')]))]"
proof -
  have c: "callbacksFor ((setReadyState CLOSED svc)\<lparr>isConnected := False\<rparr>) ''connection''
      = [recorder k]"
    using assms by (simp add: callbacksFor_def setReadyState_def split: option.splits)
  show ?thesis
    unfolding onclose_def notify_single_recorder[OF c]
    using c by (simp add: attemptReconnect_def Let_def consoleWrite_def callbacksFor_def)
qed

lemma drops_page:
  "callbacksFor svc ''connection'' = [recorder k] \<Longrightarrow>
   page (snd (drops codes userId svc e)) =
     page e @ replicate (length codes) (k, Some (JObj [(''status'', JStr ''disconnected'')]))"
proof (induction codes arbitrary: svc e)
  case Nil
  then show ?case by simp
next
  case (Cons code codes)
  obtain c svc' e' where o: "onclose code userId svc e = (c, svc', e')"
    by (cases "onclose code userId svc e") auto
  from onclose_recorded[OF Cons.prems, of code userId e]
  have c': "callbacksFor svc' ''connection'' = [recorder k]"
    and p: "page e' = page e @ [(k, Some (JObj [(''status'', JStr ''disconnected'')]))]"
    by (simp_all add: o)
  from Cons.IH[OF c', of e'] show ?case
    by (simp add: o p replicate_app_Cons_same)
qed

lemma onopen_resets: "reconnectAttempts (fst (snd (onopen svc e))) = 0"
  unfolding onopen_def
  using notifyListeners_keeps[of "''connection''" "Some (JObj [(''status'', JStr ''connected'')])"
      "(setReadyState OPEN svc)\<lparr>isConnected := True, reconnectAttempts := 0\<rparr>"
      "consoleWrite LOG ''WebSocket connected successfully'' e"]
  by simp

lemma onclose_clean:
  "timers (snd (snd (onclose 1000 userId svc e))) = timers e \<and>
   reconnectAttempts (fst (snd (onclose 1000 userId svc e))) = reconnectAttempts svc"
  using onclose_counters[of 1000 userId svc e] by simp

lemma history_timers:
  assumes "reconnectAttempts svc \<le> maxReconnectAttempts svc"
  shows "take (length (timers e)) (timers (snd (history hs userId svc e))) = timers e \<and>
         (\<forall>t \<in> set (timersSetSince e (snd (history hs userId svc e))).
            fst t = reconnectInterval svc) \<and>
         length (filter (\<lambda>t. snd t = CallConnect userId)
                   (timersSetSince e (snd (history hs userId svc e)))) =
           reconnectAttempts (fst (history hs userId svc e)) - reconnectAttempts svc"
proof -
  from history_counters[OF assms, of hs userId e] obtain added where
    a: "timers (snd (history hs userId svc e)) = timers e @ added"
      "\<forall>t \<in> set added. fst t = reconnectInterval svc"
      "length (filter (\<lambda>t. snd t = CallConnect userId) added) =
         reconnectAttempts (fst (history hs userId svc e)) - reconnectAttempts svc"
    by blast
  have s: "timersSetSince e (snd (history hs userId svc e)) = added"
    by (simp add: timersSetSince_def a(1))
  show ?thesis unfolding s using a by simp
qed

text \<open>
  C6, as the code has it. A close that is not clean, whatever its code other than 1000,
  makes the client try again on its own: as long as fewer than \<^verbatim>\<open>maxReconnectAttempts\<close>
  attempts were made since the last successful open, \<^verbatim>\<open>attemptReconnect\<close> counts one more
  and sets one timer for \<^verbatim>\<open>connect\<close>, always with the same delay \<^verbatim>\<open>reconnectInterval\<close>.
  Once the count has reached the maximum it sets no timer and changes nothing but the
  console. So drops in a row, with any such codes, set at most \<^verbatim>\<open>maxReconnectAttempts\<close>
  timers, all with this one delay. The same holds with the calls of \<^verbatim>\<open>connect\<close> in
  between, in every history of closes, errors and timers coming due: the count never
  passes the maximum, every timer set since the start waits \<^verbatim>\<open>reconnectInterval\<close>, and
  as many timers were set for \<^verbatim>\<open>connect\<close> as the count has grown. When
  \<^verbatim>\<open>new WebSocket\<close> throws, \<^verbatim>\<open>connect\<close> sets one timer, with the same delay, for
  \<^verbatim>\<open>attemptReconnect\<close>, so that two delays pass before the next attempt. The service
  starts with a maximum of 5 and a delay of 3000 ms; a successful open sets the count
  back to 0, and a clean close (code 1000) sets no timer and does not count.
\<close>

theorem reconnect_fixed_delay_capped:
  "(reconnectAttempts svc < maxReconnectAttempts svc \<longrightarrow>
      attemptReconnect userId svc e =
        (Returned, svc\<lparr>reconnectAttempts := reconnectAttempts svc + 1\<rparr>,
         e\<lparr>console := console e @
              [(LOG, ''Attempting to reconnect... ('' @ showNat (reconnectAttempts svc + 1) @
                     ''/'' @ showNat (maxReconnectAttempts svc) @ '')'')],
           timers := timers e @ [(reconnectInterval svc, CallConnect userId)]\<rparr>)) \<and>
   (\<not> reconnectAttempts svc < maxReconnectAttempts svc \<longrightarrow>
      attemptReconnect userId svc e =
        (Returned, svc,
         e\<lparr>console := console e @ [(LOG, ''Max reconnection attempts reached'')]\<rparr>)) \<and>
   (code \<noteq> 1000 \<longrightarrow>
      reconnectAttempts (fst (snd (onclose code userId svc e))) =
        (if reconnectAttempts svc < maxReconnectAttempts svc
         then reconnectAttempts svc + 1 else reconnectAttempts svc) \<and>
      timers (snd (snd (onclose code userId svc e))) =
        (if reconnectAttempts svc < maxReconnectAttempts svc
         then timers e @ [(reconnectInterval svc, CallConnect userId)] else timers e)) \<and>
   (reconnectAttempts svc \<le> maxReconnectAttempts svc \<and> (\<forall>code \<in> set codes. code \<noteq> 1000) \<longrightarrow>
      reconnectAttempts (fst (drops codes userId svc e)) =
        min (reconnectAttempts svc + length codes) (maxReconnectAttempts svc) \<and>
      maxReconnectAttempts (fst (drops codes userId svc e)) = maxReconnectAttempts svc \<and>
      timers (snd (drops codes userId svc e)) =
        timers e @ replicate (min (length codes) (maxReconnectAttempts svc - reconnectAttempts svc))
                     (reconnectInterval svc, CallConnect userId)) \<and>
   (reconnectAttempts svc \<le> maxReconnectAttempts svc \<longrightarrow>
      reconnectAttempts svc \<le> reconnectAttempts (fst (history hs userId svc e)) \<and>
      reconnectAttempts (fst (history hs userId svc e)) \<le> maxReconnectAttempts svc \<and>
      maxReconnectAttempts (fst (history hs userId svc e)) = maxReconnectAttempts svc \<and>
      reconnectInterval (fst (history hs userId svc e)) = reconnectInterval svc \<and>
      take (length (timers e)) (timers (snd (history hs userId svc e))) = timers e \<and>
      (\<forall>t \<in> set (timersSetSince e (snd (history hs userId svc e))).
         fst t = reconnectInterval svc) \<and>
      length (filter (\<lambda>t. snd t = CallConnect userId)
                (timersSetSince e (snd (history hs userId svc e)))) =
        reconnectAttempts (fst (history hs userId svc e)) - reconnectAttempts svc) \<and>
   reconnectAttempts (fst (snd (connect userId constructs svc e))) = reconnectAttempts svc \<and>
   timers (snd (snd (connect userId constructs svc e))) =
     (if \<not> socketOpen svc \<and> \<not> constructs
      then timers e @ [(reconnectInterval svc, CallAttemptReconnect userId)] else timers e) \<and>
   reconnectAttempts (fst (snd (onopen svc e))) = 0 \<and>
   timers (snd (snd (onclose 1000 userId svc e))) = timers e \<and>
   reconnectAttempts (fst (snd (onclose 1000 userId svc e))) = reconnectAttempts svc \<and>
   maxReconnectAttempts ((constructor ()) :: 'w service) = 5 \<and>
   reconnectInterval ((constructor ()) :: 'w service) = 3000"
proof -
  have a: "reconnectAttempts svc < maxReconnectAttempts svc \<longrightarrow>
      attemptReconnect userId svc e =
        (Returned, svc\<lparr>reconnectAttempts := reconnectAttempts svc + 1\<rparr>,
         e\<lparr>console := console e @
              [(LOG, ''Attempting to reconnect... ('' @ showNat (reconnectAttempts svc + 1) @
                     ''/'' @ showNat (maxReconnectAttempts svc) @ '')'')],
           timers := timers e @ [(reconnectInterval svc, CallConnect userId)]\<rparr>)"
    using attemptReconnect_below by blast
  have b: "\<not> reconnectAttempts svc < maxReconnectAttempts svc \<longrightarrow>
      attemptReconnect userId svc e =
        (Returned, svc,
         e\<lparr>console := console e @ [(LOG, ''Max reconnection attempts reached'')]\<rparr>)"
    using attemptReconnect_capped by blast
  have o: "code \<noteq> 1000 \<longrightarrow>
      reconnectAttempts (fst (snd (onclose code userId svc e))) =
        (if reconnectAttempts svc < maxReconnectAttempts svc
         then reconnectAttempts svc + 1 else reconnectAttempts svc) \<and>
      timers (snd (snd (onclose code userId svc e))) =
        (if reconnectAttempts svc < maxReconnectAttempts svc
         then timers e @ [(reconnectInterval svc, CallConnect userId)] else timers e)"
    using onclose_counters[of code userId svc e] by simp
  have c: "reconnectAttempts svc \<le> maxReconnectAttempts svc \<and> (\<forall>code \<in> set codes. code \<noteq> 1000) \<longrightarrow>
      reconnectAttempts (fst (drops codes userId svc e)) =
        min (reconnectAttempts svc + length codes) (maxReconnectAttempts svc) \<and>
      maxReconnectAttempts (fst (drops codes userId svc e)) = maxReconnectAttempts svc \<and>
      timers (snd (drops codes userId svc e)) =
        timers e @ replicate (min (length codes) (maxReconnectAttempts svc - reconnectAttempts svc))
                     (reconnectInterval svc, CallConnect userId)"
    using drops_counters by blast
  have h: "reconnectAttempts svc \<le> maxReconnectAttempts svc \<longrightarrow>
      reconnectAttempts svc \<le> reconnectAttempts (fst (history hs userId svc e)) \<and>
      reconnectAttempts (fst (history hs userId svc e)) \<le> maxReconnectAttempts svc \<and>
      maxReconnectAttempts (fst (history hs userId svc e)) = maxReconnectAttempts svc \<and>
      reconnectInterval (fst (history hs userId svc e)) = reconnectInterval svc \<and>
      take (length (timers e)) (timers (snd (history hs userId svc e))) = timers e \<and>
      (\<forall>t \<in> set (timersSetSince e (snd (history hs userId svc e))).
         fst t = reconnectInterval svc) \<and>
      length (filter (\<lambda>t. snd t = CallConnect userId)
                (timersSetSince e (snd (history hs userId svc e)))) =
        reconnectAttempts (fst (history hs userId svc e)) - reconnectAttempts svc"
  proof
    assume le: "reconnectAttempts svc \<le> maxReconnectAttempts svc"
    from history_counters[OF le, of hs userId e] history_timers[OF le, of e hs userId]
    show "reconnectAttempts svc \<le> reconnectAttempts (fst (history hs userId svc e)) \<and>
      reconnectAttempts (fst (history hs userId svc e)) \<le> maxReconnectAttempts svc \<and>
      maxReconnectAttempts (fst (history hs userId svc e)) = maxReconnectAttempts svc \<and>
      reconnectInterval (fst (history hs userId svc e)) = reconnectInterval svc \<and>
      take (length (timers e)) (timers (snd (history hs userId svc e))) = timers e \<and>
      (\<forall>t \<in> set (timersSetSince e (snd (history hs userId svc e))).
         fst t = reconnectInterval svc) \<and>
      length (filter (\<lambda>t. snd t = CallConnect userId)
                (timersSetSince e (snd (history hs userId svc e)))) =
        reconnectAttempts (fst (history hs userId svc e)) - reconnectAttempts svc"
      by blast
  qed
  have n: "reconnectAttempts (fst (snd (connect userId constructs svc e))) = reconnectAttempts svc \<and>
   timers (snd (snd (connect userId constructs svc e))) =
     (if \<not> socketOpen svc \<and> \<not> constructs
      then timers e @ [(reconnectInterval svc, CallAttemptReconnect userId)] else timers e)"
    using connect_counters[of userId constructs svc e] by blast
  have d: "reconnectAttempts (fst (snd (onopen svc e))) = 0" by (rule onopen_resets)
  have f: "timers (snd (snd (onclose 1000 userId svc e))) = timers e \<and>
           reconnectAttempts (fst (snd (onclose 1000 userId svc e))) = reconnectAttempts svc"
    by (rule onclose_clean)
  have g: "maxReconnectAttempts ((constructor ()) :: 'w service) = 5 \<and>
           reconnectInterval ((constructor ()) :: 'w service) = 3000"
    by (simp add: constructor_def)
  from a b o c h n d f g show ?thesis by blast
qed

lemma connected_counters:
  "reconnectAttempts (fst connected) = 0 \<and> maxReconnectAttempts (fst connected) = 5 \<and>
   reconnectInterval (fst connected) = 3000 \<and> timers (snd connected) = []"
  by (simp add: connected_eq constructor_def env0_def)

theorem reconnect_fixed_delay_capped_witness:
  "reconnectAttempts (fst connected) \<le> maxReconnectAttempts (fst connected) \<and>
   reconnectAttempts (fst (drops [1006, 1001, 1011, 1005, 1012, 1006, 1015] ''anonymous''
       (fst connected) (snd connected))) = 5 \<and>
   timers (snd (drops [1006, 1001, 1011, 1005, 1012, 1006, 1015] ''anonymous''
       (fst connected) (snd connected))) =
     [(3000, CallConnect ''anonymous''), (3000, CallConnect ''anonymous''),
      (3000, CallConnect ''anonymous''), (3000, CallConnect ''anonymous''),
      (3000, CallConnect ''anonymous'')] \<and>
   reconnectAttempts (fst (snd (onclose 1001 ''anonymous'' (fst connected) (snd connected)))) = 1 \<and>
   timers (snd (snd (onclose 1001 ''anonymous'' (fst connected) (snd connected))))
     = [(3000, CallConnect ''anonymous'')] \<and>
   reconnectAttempts (fst (history
       [Closes 1006, ConnectDue False, AttemptDue, ConnectDue True, Errors, Closes 1011]
       ''anonymous'' (fst connected) (snd connected))) \<le> 5 \<and>
   length (filter (\<lambda>t. snd t = CallConnect ''anonymous'')
     (timersSetSince (snd connected) (snd (history
       [Closes 1006, ConnectDue False, AttemptDue, ConnectDue True, Errors, Closes 1011]
       ''anonymous'' (fst connected) (snd connected))))) =
     reconnectAttempts (fst (history
       [Closes 1006, ConnectDue False, AttemptDue, ConnectDue True, Errors, Closes 1011]
       ''anonymous'' (fst connected) (snd connected))) \<and>
   fst (snd (attemptReconnect ''anonymous''
         (fst (drops [1006, 1001, 1011, 1005, 1012, 1006, 1015] ''anonymous''
            (fst connected) (snd connected)))
         (snd (drops [1006, 1001, 1011, 1005, 1012, 1006, 1015] ''anonymous''
            (fst connected) (snd connected)))))
     = fst (drops [1006, 1001, 1011, 1005, 1012, 1006, 1015] ''anonymous''
         (fst connected) (snd connected))"
proof -
  let ?codes = "[1006, 1001, 1011, 1005, 1012, 1006, 1015] :: nat list"
  let ?hs = "[Closes 1006, ConnectDue False, AttemptDue, ConnectDue True, Errors, Closes 1011]"
  let ?d = "drops ?codes ''anonymous'' (fst connected) (snd connected)"
  let ?h = "history ?hs ''anonymous'' (fst connected) (snd connected)"
  note k = connected_counters
  from k have le: "reconnectAttempts (fst connected) \<le> maxReconnectAttempts (fst connected)"
    by simp
  have codes: "\<forall>code \<in> set ?codes. code \<noteq> 1000" by simp
  have code: "(1001::nat) \<noteq> 1000" by simp
  note t = reconnect_fixed_delay_capped[where svc = "fst connected" and e = "snd connected"
      and userId = "''anonymous''" and codes = ?codes and hs = ?hs and code = 1001]
  from t le codes have a: "reconnectAttempts (fst ?d)
      = min (reconnectAttempts (fst connected) + length ?codes) (maxReconnectAttempts (fst connected))"
    and m: "maxReconnectAttempts (fst ?d) = maxReconnectAttempts (fst connected)"
    and b: "timers (snd ?d) =
      timers (snd connected) @
      replicate (min (length ?codes)
                   (maxReconnectAttempts (fst connected) - reconnectAttempts (fst connected)))
        (reconnectInterval (fst connected), CallConnect ''anonymous'')"
    by blast+
  from t code have o1: "reconnectAttempts (fst (snd (onclose 1001 ''anonymous'' (fst connected)
          (snd connected)))) =
        (if reconnectAttempts (fst connected) < maxReconnectAttempts (fst connected)
         then reconnectAttempts (fst connected) + 1 else reconnectAttempts (fst connected))"
    and o2: "timers (snd (snd (onclose 1001 ''anonymous'' (fst connected) (snd connected)))) =
        (if reconnectAttempts (fst connected) < maxReconnectAttempts (fst connected)
         then timers (snd connected) @ [(reconnectInterval (fst connected), CallConnect ''anonymous'')]
         else timers (snd connected))"
    by blast+
  from t le have h1: "reconnectAttempts (fst ?h) \<le> maxReconnectAttempts (fst connected)"
    and h2: "length (filter (\<lambda>t. snd t = CallConnect ''anonymous'')
                (timersSetSince (snd connected) (snd ?h))) =
        reconnectAttempts (fst ?h) - reconnectAttempts (fst connected)"
    by blast+
  from a k have a': "reconnectAttempts (fst ?d) = 5" by simp
  from b k have b': "timers (snd ?d) =
     [(3000, CallConnect ''anonymous''), (3000, CallConnect ''anonymous''),
      (3000, CallConnect ''anonymous''), (3000, CallConnect ''anonymous''),
      (3000, CallConnect ''anonymous'')]"
    by (simp add: numeral_eq_Suc)
  from o1 k have o1': "reconnectAttempts (fst (snd (onclose 1001 ''anonymous'' (fst connected)
          (snd connected)))) = 1"
    by simp
  from o2 k have o2': "timers (snd (snd (onclose 1001 ''anonymous'' (fst connected) (snd connected))))
     = [(3000, CallConnect ''anonymous'')]"
    by simp
  from h1 k have h1': "reconnectAttempts (fst ?h) \<le> 5" by simp
  from h2 k have h2': "length (filter (\<lambda>t. snd t = CallConnect ''anonymous'')
                (timersSetSince (snd connected) (snd ?h))) = reconnectAttempts (fst ?h)"
    by simp
  from a' m k have n': "\<not> reconnectAttempts (fst ?d) < maxReconnectAttempts (fst ?d)"
    by simp
  from reconnect_fixed_delay_capped[where svc = "fst ?d" and e = "snd ?d"
      and userId = "''anonymous''"] n'
  have "attemptReconnect ''anonymous'' (fst ?d) (snd ?d) =
        (Returned, fst ?d,
         (snd ?d)\<lparr>console := console (snd ?d) @ [(LOG, ''Max reconnection attempts reached'')]\<rparr>)"
    by blast
  then have c: "fst (snd (attemptReconnect ''anonymous'' (fst ?d) (snd ?d))) = fst ?d"
    by simp
  from le a' b' o1' o2' h1' h2' c show ?thesis by blast
qed

text \<open>
  When \<^verbatim>\<open>new WebSocket\<close> throws, the next attempt comes after two delays: one timer for
  \<^verbatim>\<open>attemptReconnect\<close>, and when it is due one timer for \<^verbatim>\<open>connect\<close>.
\<close>

lemma connect_failure_waits_twice:
  "timers (snd (history [ConnectDue False, AttemptDue] ''anonymous'' (constructor ()) env0))
     = [(3000, CallAttemptReconnect ''anonymous''), (3000, CallConnect ''anonymous'')] \<and>
   reconnectAttempts (fst (history [ConnectDue False, AttemptDue] ''anonymous'' (constructor ()) env0))
     = 1"
  by (simp add: connect_def attemptReconnect_def notifyListeners_def constructor_def env0_def
      consoleWrite_def Let_def)

text \<open>
  The specification asks for delays that grow exponentially and for a state of
  persistent failure shown to the user. After three drops in a row the three timers all
  wait 3000 ms; and a listener on \<^verbatim>\<open>connection\<close> is told \<^verbatim>\<open>disconnected\<close> once for each of
  six drops and nothing else, although the fifth was the last to set a timer.
\<close>

theorem reconnect_delay_constant_and_failure_silent:
  "map fst (timers (snd (drops [1006, 1006, 1006] ''anonymous'' (fst connected) (snd connected))))
     = [3000, 3000, 3000] \<and>
   page (snd (drops [1006, 1006, 1006, 1006, 1006, 1006] ''anonymous''
                (subscribe ''connection'' (recorder 1) (fst connected)) (snd connected)))
     = replicate 6 (1, Some (JObj [(''status'', JStr ''disconnected'')])) \<and>
   length (timers (snd (drops [1006, 1006, 1006, 1006, 1006, 1006] ''anonymous''
                (subscribe ''connection'' (recorder 1) (fst connected)) (snd connected)))) = 5"
proof -
  note k = connected_counters
  from k have le: "reconnectAttempts (fst connected) \<le> maxReconnectAttempts (fst connected)"
    by simp
  have c3: "\<forall>code \<in> set [1006, 1006, 1006 :: nat]. code \<noteq> 1000" by simp
  have c6: "\<forall>code \<in> set [1006, 1006, 1006, 1006, 1006, 1006 :: nat]. code \<noteq> 1000" by simp
  have a: "map fst (timers (snd (drops [1006, 1006, 1006] ''anonymous'' (fst connected) (snd connected))))
     = [3000, 3000, 3000]"
    using drops_counters[OF le c3, of "''anonymous''" "snd connected"] k
    by (simp add: numeral_eq_Suc)
  let ?svc = "subscribe ''connection'' (recorder 1) (fst connected)"
  have c: "callbacksFor ?svc ''connection'' = [recorder 1]"
    by (simp add: callbacksFor_subscribe) (simp add: callbacksFor_def connected_eq constructor_def)
  have p: "page (snd connected) = []" by (simp add: connected_eq env0_def)
  have b: "page (snd (drops [1006, 1006, 1006, 1006, 1006, 1006] ''anonymous'' ?svc (snd connected)))
     = replicate 6 (1, Some (JObj [(''status'', JStr ''disconnected'')]))"
    unfolding drops_page[OF c] p by (simp add: numeral_eq_Suc)
  have k': "reconnectAttempts ?svc = 0 \<and> maxReconnectAttempts ?svc = 5 \<and>
      reconnectInterval ?svc = 3000"
    using k by (simp add: subscribe_def split: option.splits)
  then have le': "reconnectAttempts ?svc \<le> maxReconnectAttempts ?svc" by simp
  have d: "length (timers (snd (drops [1006, 1006, 1006, 1006, 1006, 1006] ''anonymous'' ?svc
      (snd connected)))) = 5"
    using drops_counters[OF le' c6, of "''anonymous''" "snd connected"] k k'
    by simp
  from a b d show ?thesis by blast
qed

end
